theory Spec2Isabelle
  imports Complex_Main
begin

section \<open>Python values, exceptions and control flow\<close>

text \<open>
  The TEC operation of LoSiTo (\<^verbatim>\<open>losito/operations/tec.py\<close>) is embedded as HOL
  functions. An exception of the source is a value \<open>Inl e\<close> of the sum type
  \<open>error + 'a\<close>; state that the source mutates (the files on disk, the parset
  dictionary of the observation) is passed in and returned.
\<close>

datatype error =
    IndexError | ValueError | OverflowError | KeyError | AttributeError
  | ZeroDivisionError | OSError | NameError

text \<open>Sequencing of two statements: the second runs only when the first did not raise.\<close>

fun and_then :: "error + 'a \<Rightarrow> ('a \<Rightarrow> error + 'b) \<Rightarrow> error + 'b" where
  "and_then (Inl e) f = Inl e"
| "and_then (Inr v) f = f v"

text \<open>A \<^verbatim>\<open>for i in xs: body\<close> loop over a state; it stops at the first exception.\<close>

fun for_each :: "'i list \<Rightarrow> ('i \<Rightarrow> 's \<Rightarrow> error + 's) \<Rightarrow> 's \<Rightarrow> error + 's" where
  "for_each [] body s = Inr s"
| "for_each (i # is) body s = and_then (body i s) (for_each is body)"

text \<open>
  A double-precision number is a finite real, a NaN or an infinity. Cube cells are only
  ever copied, so a cell keeps whichever of these it holds.
\<close>

datatype npfloat = Fin real | NaN | PosInf | NegInf

text \<open>
  Python's \<^verbatim>\<open>int(x)\<close> on a float: the fractional part is dropped (truncation toward
  zero); a NaN raises ValueError and an infinity OverflowError.
\<close>

fun py_int :: "npfloat \<Rightarrow> error + int" where
  "py_int (Fin r) = Inr (if r < 0 then - \<lfloor>- r\<rfloor> else \<lfloor>r\<rfloor>)"
| "py_int NaN = Inl ValueError"
| "py_int PosInf = Inl OverflowError"
| "py_int NegInf = Inl OverflowError"

text \<open>Python's \<^verbatim>\<open>a / b\<close> on integers.\<close>

definition py_truediv :: "int \<Rightarrow> int \<Rightarrow> error + real" where
  "py_truediv a b = (if b = 0 then Inl ZeroDivisionError else Inr (real_of_int a / real_of_int b))"

section \<open>numpy arrays\<close>

text \<open>
  An n-dimensional array is its shape and its cells, addressed by an index vector. Only the
  cells whose index lies inside the shape belong to the array.
\<close>

record ndarray =
  shape :: "nat list"
  cell :: "nat list \<Rightarrow> npfloat"

definition np_full :: "nat list \<Rightarrow> npfloat \<Rightarrow> ndarray" where
  "np_full shp v = \<lparr>shape = shp, cell = (\<lambda>_. v)\<rparr>"

definition np_zeros :: "nat list \<Rightarrow> ndarray" where
  "np_zeros shp = np_full shp (Fin 0)"

definition np_ones :: "nat list \<Rightarrow> ndarray" where
  "np_ones shp = np_full shp (Fin 1)"

text \<open>One index of one axis of length \<open>n\<close>: a negative index counts from the end.\<close>

definition np_index :: "nat \<Rightarrow> int \<Rightarrow> error + nat" where
  "np_index n i =
     (if 0 \<le> i \<and> i < int n then Inr (nat i)
      else if i < 0 \<and> - int n \<le> i then Inr (nat (i + int n))
      else Inl IndexError)"

fun np_indices :: "nat list \<Rightarrow> int list \<Rightarrow> error + nat list" where
  "np_indices [] [] = Inr []"
| "np_indices (n # ns) (i # is) =
     and_then (np_index n i) (\<lambda>j. and_then (np_indices ns is) (\<lambda>js. Inr (j # js)))"
| "np_indices _ _ = Inl IndexError"

text \<open>\<^verbatim>\<open>a[i0, ..., ik]\<close> read and written with one integer per axis.\<close>

definition np_get :: "ndarray \<Rightarrow> int list \<Rightarrow> error + npfloat" where
  "np_get a is = and_then (np_indices (shape a) is) (\<lambda>js. Inr (cell a js))"

definition np_set :: "ndarray \<Rightarrow> int list \<Rightarrow> npfloat \<Rightarrow> error + ndarray" where
  "np_set a is v =
     and_then (np_indices (shape a) is) (\<lambda>js. Inr (a\<lparr>cell := (cell a)(js := v)\<rparr>))"

definition in_shape :: "nat list \<Rightarrow> nat list \<Rightarrow> bool" where
  "in_shape shp js = list_all2 (\<lambda>j n. j < n) js shp"

text \<open>\<^verbatim>\<open>a[:, :, d, :] = v\<close> on a four-dimensional array.\<close>

definition np_set_dir :: "ndarray \<Rightarrow> int \<Rightarrow> npfloat \<Rightarrow> error + ndarray" where
  "np_set_dir a d v =
     (case shape a of
        [n0, n1, n2, n3] \<Rightarrow>
          and_then (np_index n2 d)
            (\<lambda>j. Inr (a\<lparr>cell := (\<lambda>js. if in_shape (shape a) js \<and> js ! 2 = j then v
                                       else cell a js)\<rparr>))
      | _ \<Rightarrow> Inl IndexError)"

section \<open>The data of the operation\<close>

text \<open>
  The FITS cube: the array \<^verbatim>\<open>hdu[0].data\<close>, the numeric header cards, and the
  projection \<^verbatim>\<open>wcs.WCS(header).wcs_world2pix\<close> with origin 0, which astropy computes
  from the header. The projection takes the right ascension and declination of a direction
  to fractional pixel coordinates \<open>(x, y)\<close>.
\<close>

record cube =
  data :: ndarray
  header :: "string \<rightharpoonup> real"
  wcs_world2pix :: "real \<Rightarrow> real \<Rightarrow> npfloat \<times> npfloat"

text \<open>The solution table that \<^verbatim>\<open>makeSoltab\<close> stores, with its history entries.\<close>

record soltab =
  soltype :: string
  soltabName :: string
  axesNames :: "string list"
  axis_time :: "real list"
  axis_ant :: "string list"
  axis_dir :: "string list"
  axis_freq :: "real list"
  vals :: ndarray
  weights :: ndarray
  history :: "string list"

type_synonym position = "real \<times> real \<times> real"

record solset =
  solsetName :: string
  soltabs :: "soltab list"
  antenna :: "(string \<times> position) list"
  source :: "(string \<times> real list) list"

text \<open>What a path of the file system holds.\<close>

datatype fobj = Fits cube | H5parm "solset list" | Directory | OtherFile

type_synonym filesystem = "string \<rightharpoonup> fobj"

text \<open>Values of the parset dictionary of the observation.\<close>

datatype pvalue = PStr string | PList "string list" | PBool bool | PInt int

type_synonym parset = "string \<rightharpoonup> pvalue"

text \<open>
  The observation object: the sky model's patches (\<^verbatim>\<open>get_patch_coords\<close>,
  \<^verbatim>\<open>get_patch_names\<close>), the stations, the time sampling, and the parset dictionary
  that the operations write.
\<close>

record observation =
  patch_ras :: "real list"
  patch_decs :: "real list"
  patch_names :: "string list"
  stations :: "string list"
  stationpos :: "position list"
  starttime :: real
  timepersample :: real
  numsamples :: nat
  parset_parameters :: parset

section \<open>Sampling the cube (method fits)\<close>

text \<open>Lines 95-96: the integer pixel of a direction.\<close>

definition pixel_of :: "cube \<Rightarrow> real \<Rightarrow> real \<Rightarrow> error + int \<times> int" where
  "pixel_of c ra_deg dec_deg =
     and_then (py_int (fst (wcs_world2pix c ra_deg dec_deg))) (\<lambda>x.
     and_then (py_int (snd (wcs_world2pix c ra_deg dec_deg))) (\<lambda>y.
     Inr (x, y)))"

text \<open>Line 97: the test that flags a direction.\<close>

definition flagged :: "nat \<Rightarrow> nat \<Rightarrow> int \<Rightarrow> int \<Rightarrow> bool" where
  "flagged nx ny x y = (x < 0 \<or> int nx < x \<or> y < 0 \<or> int ny < y)"

text \<open>Line 104: one cell of the cube is read and stored.\<close>

definition copy_cell ::
    "ndarray \<Rightarrow> nat \<Rightarrow> int \<Rightarrow> int \<Rightarrow> nat \<Rightarrow> nat \<Rightarrow> nat \<Rightarrow> ndarray \<Rightarrow> error + ndarray" where
  "copy_cell dat d y x t f s vs =
     and_then (np_get dat [int t, int f, int s, y, x]) (\<lambda>v.
     np_set vs [int t, int s, int d, int f] v)"

text \<open>Lines 101-104: the three nested loops that copy one pixel of the cube.\<close>

definition copy_pixel ::
    "ndarray \<Rightarrow> nat \<Rightarrow> nat \<Rightarrow> nat \<Rightarrow> nat \<Rightarrow> int \<Rightarrow> int \<Rightarrow> ndarray \<Rightarrow> error + ndarray" where
  "copy_pixel dat ntimes nfreqs nstations d y x =
     for_each [0..<ntimes] (\<lambda>t.
       for_each [0..<nfreqs] (\<lambda>f.
         for_each [0..<nstations] (\<lambda>s.
           copy_cell dat d y x t f s)))"

text \<open>Lines 94-104: the body of the loop over the directions.\<close>

definition sample_direction ::
    "cube \<Rightarrow> nat \<Rightarrow> nat \<Rightarrow> nat \<Rightarrow> nat \<Rightarrow> nat \<Rightarrow> nat \<times> real \<times> real \<Rightarrow>
     ndarray \<times> ndarray \<Rightarrow> error + ndarray \<times> ndarray" where
  "sample_direction c ntimes nfreqs nstations ny nx = (\<lambda>(d, ra_deg, dec_deg) (vs, ws).
     and_then (pixel_of c ra_deg dec_deg) (\<lambda>(x, y).
     if flagged nx ny x y then
       and_then (np_set_dir vs (int d) (Fin 1)) (\<lambda>vs'.
       and_then (np_set_dir ws (int d) (Fin 0)) (\<lambda>ws'.
       Inr (vs', ws')))
     else
       and_then (copy_pixel (data c) ntimes nfreqs nstations d y x vs) (\<lambda>vs'.
       Inr (vs', ws))))"

text \<open>\<^verbatim>\<open>enumerate(zip(ras, decs))\<close>.\<close>

definition enumerate_zip :: "'a list \<Rightarrow> 'b list \<Rightarrow> (nat \<times> 'a \<times> 'b) list" where
  "enumerate_zip xs ys = zip [0..<min (length xs) (length ys)] (zip xs ys)"

text \<open>Lines 109 and 112: \<^verbatim>\<open>[ref+(del*i) for i in range(n)]\<close>.\<close>

definition fill_axis :: "real \<Rightarrow> real \<Rightarrow> nat \<Rightarrow> real list" where
  "fill_axis ref del n = map (\<lambda>i. ref + del * real i) [0..<n]"

text \<open>\<^verbatim>\<open>header[key]\<close>.\<close>

definition header_get :: "cube \<Rightarrow> string \<Rightarrow> error + real" where
  "header_get c key = (case header c key of None \<Rightarrow> Inl KeyError | Some v \<Rightarrow> Inr v)"

text \<open>
  The function either leaves early with a status (\<^verbatim>\<open>return 1\<close>) or carries on with
  what it has computed.
\<close>

datatype 'a flow = Return int | Continue 'a

text \<open>What lines 83-113 compute: the arrays and the axes.\<close>

record solutions =
  sol_vals :: ndarray
  sol_weights :: ndarray
  sol_times :: "real list"
  sol_freqs :: "real list"
  sol_ants :: "string list"

text \<open>
  Lines 83-113. Unpacking \<^verbatim>\<open>data.shape\<close> into five names raises ValueError when the
  cube does not have five axes.
\<close>

definition sample_cube :: "observation \<Rightarrow> cube \<Rightarrow> error + solutions flow" where
  "sample_cube obs c =
     (case shape (data c) of
        [ntimes, nfreqs, nstations, ny, nx] \<Rightarrow>
          if nstations \<noteq> length (stations obs) then Inr (Return 1)
          else
            (let ndirs = length (patch_names obs);
                 vs = np_zeros [ntimes, nstations, ndirs, nfreqs];
                 ws = np_ones (shape vs)
             in
             and_then (for_each (enumerate_zip (patch_ras obs) (patch_decs obs))
                         (sample_direction c ntimes nfreqs nstations ny nx) (vs, ws))
               (\<lambda>(vs', ws').
             and_then (header_get c ''CRVAL4'') (\<lambda>t_ref.
             and_then (header_get c ''CDELT4'') (\<lambda>t_del.
             and_then (header_get c ''CRVAL3'') (\<lambda>f_ref.
             and_then (header_get c ''CDELT3'') (\<lambda>f_del.
             Inr (Continue \<lparr>sol_vals = vs', sol_weights = ws',
                             sol_times = fill_axis t_ref t_del ntimes,
                             sol_freqs = fill_axis f_ref f_del nfreqs,
                             sol_ants = stations obs\<rparr>)))))))
      | _ \<Rightarrow> Inl ValueError)"

section \<open>Writing the h5parm file\<close>

text \<open>
  \<^verbatim>\<open>pyfits.open(fitsFilename, memmap=False)\<close>: the whole cube is read; an empty or missing
  name raises ValueError, and a path that holds no FITS file raises OSError.
\<close>

definition fits_open :: "filesystem \<Rightarrow> string option \<Rightarrow> error + cube" where
  "fits_open fs fitsFilename =
     (case fitsFilename of
        None \<Rightarrow> Inl ValueError
      | Some name \<Rightarrow>
          if name = [] then Inl ValueError
          else (case fs name of Some (Fits c) \<Rightarrow> Inr c | _ \<Rightarrow> Inl OSError))"

text \<open>\<^verbatim>\<open>os.path.exists\<close> and \<^verbatim>\<open>os.remove\<close>; the latter refuses a directory.\<close>

definition os_path_exists :: "filesystem \<Rightarrow> string \<Rightarrow> bool" where
  "os_path_exists fs path = (case fs path of None \<Rightarrow> False | Some _ \<Rightarrow> True)"

definition os_remove :: "filesystem \<Rightarrow> string \<Rightarrow> error + filesystem" where
  "os_remove fs path =
     (case fs path of
        None \<Rightarrow> Inl OSError
      | Some Directory \<Rightarrow> Inl OSError
      | Some _ \<Rightarrow> Inr (fs(path := None)))"

text \<open>
  \<^verbatim>\<open>h5parm(path, readonly=False)\<close> of LoSoTo: an existing h5parm file is opened for
  update with everything it holds, a missing one is created empty.
\<close>

definition h5parm_open :: "filesystem \<Rightarrow> string \<Rightarrow> error + solset list" where
  "h5parm_open fs path =
     (case fs path of
        None \<Rightarrow> Inr []
      | Some (H5parm ss) \<Rightarrow> Inr ss
      | Some _ \<Rightarrow> Inl OSError)"

text \<open>\<^verbatim>\<open>makeSolset\<close>: a new solution set with empty antenna and source tables.\<close>

definition makeSolset :: "string \<Rightarrow> solset" where
  "makeSolset name = \<lparr>solsetName = name, soltabs = [], antenna = [], source = []\<rparr>"

text \<open>Line 132: the history entry.\<close>

definition create_entry :: "string \<Rightarrow> string \<Rightarrow> string" where
  "create_entry h5parmFilename fitsFilename =
     ''CREATE (by TEC operation of LoSiTo from obs '' @ h5parmFilename @
     '' and FITS cube '' @ fitsFilename @ '')''"

definition addHistory :: "string \<Rightarrow> soltab \<Rightarrow> soltab" where
  "addHistory entry st = st\<lparr>history := history st @ [entry]\<rparr>"

text \<open>
  Lines 119-133: the solution set \<^verbatim>\<open>sol000\<close> with the table \<^verbatim>\<open>tec000\<close>, the antenna
  and source tables, and one history entry for each of its tables.
\<close>

definition tec_solset :: "observation \<Rightarrow> string \<Rightarrow> string \<Rightarrow> solutions \<Rightarrow> solset" where
  "tec_solset obs h5parmFilename fitsFilename sol =
     (let solset = makeSolset ''sol000'';
          st = \<lparr>soltype = ''tec'', soltabName = ''tec000'',
                axesNames = [''time'', ''ant'', ''dir'', ''freq''],
                axis_time = sol_times sol, axis_ant = sol_ants sol,
                axis_dir = patch_names obs, axis_freq = sol_freqs sol,
                vals = sol_vals sol, weights = sol_weights sol, history = []\<rparr>;
          solset = solset\<lparr>soltabs := soltabs solset @ [st]\<rparr>;
          solset = solset\<lparr>antenna := antenna solset @ zip (stations obs) (stationpos obs)\<rparr>;
          radec = map (\<lambda>(ra, dec). [ra, dec]) (zip (patch_ras obs) (patch_decs obs));
          solset = solset\<lparr>source := source solset @ zip (patch_names obs) radec\<rparr>
      in solset\<lparr>soltabs :=
           map (addHistory (create_entry h5parmFilename fitsFilename)) (soltabs solset)\<rparr>)"

text \<open>
  Lines 116-134: whatever the path holds is removed, the file is opened (and so created),
  the solution set is added to it, and the file is closed.
\<close>

definition write_h5parm ::
    "observation \<Rightarrow> string \<Rightarrow> string \<Rightarrow> solutions \<Rightarrow> filesystem \<Rightarrow> error + filesystem" where
  "write_h5parm obs h5parmFilename fitsFilename sol fs =
     and_then (if os_path_exists fs h5parmFilename then os_remove fs h5parmFilename
               else Inr fs) (\<lambda>fs.
     and_then (h5parm_open fs h5parmFilename) (\<lambda>ho.
     Inr (fs(h5parmFilename \<mapsto> H5parm (ho @ [tec_solset obs h5parmFilename fitsFilename sol])))))"

section \<open>The parset update\<close>

text \<open>
  Lines 166-172. \<^verbatim>\<open>append\<close> exists on a list only: any other value under the steps key
  raises AttributeError, after the parmdb key has been written.
\<close>

definition update_parset :: "string \<Rightarrow> parset \<Rightarrow> error option \<times> parset" where
  "update_parset h5parmFilename ps =
     (let ps = ps(''predict.applycal.parmdb'' \<mapsto> PStr h5parmFilename) in
      case (case ps ''predict.applycal.steps'' of
              Some (PList steps) \<Rightarrow> Inr (ps(''predict.applycal.steps'' \<mapsto> PList (steps @ [''tec''])))
            | Some _ \<Rightarrow> Inl AttributeError
            | None \<Rightarrow> Inr (ps(''predict.applycal.steps'' \<mapsto> PList [''tec'']))) of
        Inl e \<Rightarrow> (Some e, ps)
      | Inr ps \<Rightarrow>
          (None, ps(''predict.applycal.correction'' \<mapsto> PStr ''tec000'',
                    ''predict.applycal.tec.correction'' \<mapsto> PStr ''tec000'')))"

section \<open>The operation\<close>

text \<open>Lines 78-134: the branch of method \<^verbatim>\<open>fits\<close>.\<close>

definition run_fits ::
    "observation \<Rightarrow> string \<Rightarrow> string option \<Rightarrow> filesystem \<Rightarrow> error + filesystem flow" where
  "run_fits obs h5parmFilename fitsFilename fs =
     and_then (fits_open fs fitsFilename) (\<lambda>c.
     and_then (sample_cube obs c) (\<lambda>r.
     case r of
       Return status \<Rightarrow> Inr (Return status)
     | Continue sol \<Rightarrow>
         and_then (write_h5parm obs h5parmFilename (case fitsFilename of Some n \<Rightarrow> n | None \<Rightarrow> ''None'') sol fs)
           (\<lambda>fs'. Inr (Continue fs'))))"

text \<open>
  The names bound at module level of \<^verbatim>\<open>tec.py\<close>: what it imports and the functions it
  defines. The star import of \<^verbatim>\<open>losito.lib_operations\<close> is taken to bind \<^verbatim>\<open>os\<close>, which
  line 116 uses. The names \<^verbatim>\<open>aa\<close>, \<^verbatim>\<open>obs\<close>, \<^verbatim>\<open>A12\<close>, \<^verbatim>\<open>times\<close> and \<^verbatim>\<open>tid\<close> are
  bound inside \<^verbatim>\<open>run\<close> only, as its parameter and its local variables.
\<close>

datatype pyobject = Module | Class | Function

definition module_globals :: "(string \<times> pyobject) list" where
  "module_globals =
     [(''logging'', Module), (''os'', Module), (''pyfits'', Module), (''wcs'', Module),
      (''h5parm'', Class), (''plt'', Module), (''np'', Module), (''u'', Module),
      (''coord'', Module), (''SkyCoord'', Class), (''Time'', Class),
      (''EarthLocation'', Class), (''FK5'', Class), (''AltAz'', Class), (''Pool'', Function),
      (''pt'', Module), (''post'', Module), (''_run_parser'', Function),
      (''_getaltaz'', Function), (''_gettec'', Function), (''run'', Function)]"

text \<open>
  A name read inside a module-level function that is not one of its parameters or local
  variables is looked up at module level, and raises NameError when it is not bound there.
\<close>

definition load_global :: "string \<Rightarrow> error + pyobject" where
  "load_global name =
     (case map_of module_globals name of None \<Rightarrow> Inl NameError | Some v \<Rightarrow> Inr v)"

text \<open>
  Lines 35-40, \<^verbatim>\<open>_getaltaz\<close>: the coordinate of the direction is built (line 38), then
  line 39 reads the name \<^verbatim>\<open>aa\<close> to transform it to that frame.
\<close>

datatype skycoord = FK5Coord real real | TransformedTo skycoord pyobject

definition getaltaz :: "real \<times> real \<Rightarrow> error + skycoord" where
  "getaltaz radec =
     (let ra = fst radec; dec = snd radec; mycoord = FK5Coord ra dec
      in and_then (load_global ''aa'') (\<lambda>aa. Inr (TransformedTo mycoord aa)))"

text \<open>
  Lines 43-54, \<^verbatim>\<open>_gettec\<close>: line 46 reads the name \<^verbatim>\<open>obs\<close> for its attribute
  \<^verbatim>\<open>stationpositions\<close>, which no module, class or function bound at module level has.
\<close>

definition gettec :: "skycoord \<Rightarrow> error + real list list" where
  "gettec altaz = and_then (load_global ''obs'') (\<lambda>obs. Inl AttributeError)"

text \<open>
  \<^verbatim>\<open>Pool.map\<close>: the function is applied to every element and the results come back in the
  order of the input; an exception raised by an element is raised by the call. Which one is
  raised when several elements fail depends on the order in which the workers finish; here
  it is the first in the order of the input.
\<close>

fun pool_map :: "('a \<Rightarrow> error + 'b) \<Rightarrow> 'a list \<Rightarrow> error + 'b list" where
  "pool_map f [] = Inr []"
| "pool_map f (x # xs) =
     and_then (f x) (\<lambda>y. and_then (pool_map f xs) (\<lambda>ys. Inr (y # ys)))"

text \<open>
  Lines 138-161: the branch of method \<^verbatim>\<open>wave\<close>. Lines 138-152 build the time axis and
  objects of astropy, all local to \<^verbatim>\<open>run\<close>. Lines 154-160 map \<^verbatim>\<open>_getaltaz\<close> over the
  directions and \<^verbatim>\<open>_gettec\<close> over the results. Line 161 then evaluates \<^verbatim>\<open>0/0\<close>.
\<close>

definition run_wave :: "observation \<Rightarrow> filesystem \<Rightarrow> error + filesystem flow" where
  "run_wave obs fs =
     (let radec = zip (patch_ras obs) (patch_decs obs)
      in and_then (pool_map getaltaz radec) (\<lambda>altazcoord.
         and_then (pool_map gettec altazcoord) (\<lambda>alltec.
         and_then (py_truediv 0 0) (\<lambda>_. Inr (Continue fs)))))"

text \<open>
  \<^verbatim>\<open>run(obs, method, h5parmFilename, fitsFilename=None)\<close>: the outcome (an exception or the
  returned status), and the observation and the file system as the call leaves them.
\<close>

definition run ::
    "observation \<Rightarrow> string \<Rightarrow> string \<Rightarrow> string option \<Rightarrow> filesystem \<Rightarrow>
     (error + int) \<times> observation \<times> filesystem" where
  "run obs method h5parmFilename fitsFilename fs =
     (case (if method = ''fits'' then run_fits obs h5parmFilename fitsFilename fs
            else if method = ''wave'' then run_wave obs fs
            else Inr (Continue fs)) of
        Inl e \<Rightarrow> (Inl e, obs, fs)
      | Inr (Return status) \<Rightarrow> (Inr status, obs, fs)
      | Inr (Continue fs') \<Rightarrow>
          (case update_parset h5parmFilename (parset_parameters obs) of
             (Some e, ps) \<Rightarrow> (Inl e, obs\<lparr>parset_parameters := ps\<rparr>, fs')
           | (None, ps) \<Rightarrow> (Inr 0, obs\<lparr>parset_parameters := ps\<rparr>, fs')))"

section \<open>Reading the result back\<close>

text \<open>
  \<^verbatim>\<open>h5parm(path).getSolset(a).getSoltab(b)\<close>: the table a reader of the file finds under
  these names.
\<close>

definition getSoltab :: "solset list \<Rightarrow> string \<Rightarrow> string \<Rightarrow> soltab option" where
  "getSoltab ho a b =
     (case find (\<lambda>ss. solsetName ss = a) ho of
        None \<Rightarrow> None
      | Some ss \<Rightarrow> find (\<lambda>st. soltabName st = b) (soltabs ss))"

definition tec_table :: "filesystem \<Rightarrow> string \<Rightarrow> soltab option" where
  "tec_table fs path =
     (case fs path of
        Some (H5parm ho) \<Rightarrow> getSoltab ho ''sol000'' ''tec000''
      | _ \<Rightarrow> None)"

text \<open>
  Whether the loop of lines 93-104 flags direction number \<open>d\<close> of the sky model: it has
  coordinates, they have an integer pixel, and the test of line 97 holds for it.
\<close>

definition direction_flagged :: "observation \<Rightarrow> cube \<Rightarrow> nat \<Rightarrow> bool" where
  "direction_flagged obs c d =
     (d < length (patch_ras obs) \<and> d < length (patch_decs obs) \<and>
      (case shape (data c) of
         [ntimes, nfreqs, nstations, ny, nx] \<Rightarrow>
           (case pixel_of c (patch_ras obs ! d) (patch_decs obs ! d) of
              Inr (x, y) \<Rightarrow> flagged nx ny x y
            | Inl _ \<Rightarrow> False)
       | _ \<Rightarrow> False))"

text \<open>
  The specification's reading of lines 95-96, for comparison with \<open>py_int\<close>: the nearest
  integer to the fractional coordinate.
\<close>

definition spec_nearest_pixel :: "real \<Rightarrow> int" where
  "spec_nearest_pixel r = round r"

section \<open>A small observation\<close>

text \<open>
  A cube of two times, one frequency, two stations and 2 x 3 pixels whose projection takes
  \<open>(ra, dec)\<close> to the pixel coordinates \<open>(ra, dec)\<close>; a sky model of three directions, the
  second of them five pixels off the image; and a disk that already holds an h5parm file
  under the output name.
\<close>

definition ex_cube :: cube where
  "ex_cube =
     \<lparr>data = \<lparr>shape = [2, 1, 2, 2, 3],
              cell = (\<lambda>js. case js of
                        [t, f, s, y, x] \<Rightarrow> Fin (real (1000 * t + 100 * s + 10 * y + x))
                      | _ \<Rightarrow> NaN)\<rparr>,
      header = [''CRVAL4'' \<mapsto> 100, ''CDELT4'' \<mapsto> 10, ''CRVAL3'' \<mapsto> 50, ''CDELT3'' \<mapsto> 5],
      wcs_world2pix = (\<lambda>ra dec. (Fin ra, Fin dec))\<rparr>"

definition ex_obs :: observation where
  "ex_obs =
     \<lparr>patch_ras = [17 / 10, 8, - 4 / 10], patch_decs = [2 / 10, 1, 19 / 10],
      patch_names = [''D1'', ''D2'', ''D3''],
      stations = [''CS001'', ''CS002''], stationpos = [(0, 0, 0), (1, 0, 0)],
      starttime = 0, timepersample = 1, numsamples = 2,
      parset_parameters = [''predict.applycal.steps'' \<mapsto> PList [''beam'']]\<rparr>"

definition ex_fs :: filesystem where
  "ex_fs =
     [''tec.fits'' \<mapsto> Fits ex_cube,
      ''out.h5'' \<mapsto> H5parm [\<lparr>solsetName = ''sol000'', soltabs = [],
                                antenna = [(''OLD'', (0, 0, 0))], source = []\<rparr>]]"


text \<open>The same sky model with one direction only, on the pixel column just past the image.\<close>

definition edge_obs :: observation where
  "edge_obs = ex_obs\<lparr>patch_ras := [3], patch_decs := [0], patch_names := [''E1'']\<rparr>"

text \<open>The call of the operation on this observation, and on one whose parset is empty.\<close>

definition ex_result :: "(error + int) \<times> observation \<times> filesystem" where
  "ex_result = run ex_obs ''fits'' ''out.h5'' (Some ''tec.fits'') ex_fs"

definition bare_obs :: observation where
  "bare_obs = ex_obs\<lparr>parset_parameters := Map.empty\<rparr>"

definition bare_result :: "(error + int) \<times> observation \<times> filesystem" where
  "bare_result = run bare_obs ''fits'' ''out.h5'' (Some ''tec.fits'') ex_fs"

text \<open>The same observation with a third station, which the cube does not have.\<close>

definition mismatch_obs :: observation where
  "mismatch_obs = ex_obs\<lparr>stations := [''CS001'', ''CS002'', ''CS003'']\<rparr>"

section \<open>Loops, arrays and the steps of the operation\<close>

lemma and_then_Inr_iff: "and_then m f = Inr v \<longleftrightarrow> (\<exists>a. m = Inr a \<and> f a = Inr v)"
  by (cases m) auto

lemma for_each_preserve:
  assumes "for_each xs body s = Inr s'" and "P s"
    and "\<And>i s s'. i \<in> set xs \<Longrightarrow> P s \<Longrightarrow> body i s = Inr s' \<Longrightarrow> P s'"
  shows "P s'"
  using assms
proof (induction xs arbitrary: s)
  case Nil
  then show ?case by simp
next
  case (Cons i xs)
  from Cons.prems(1) obtain s1 where b: "body i s = Inr s1" and r: "for_each xs body s1 = Inr s'"
    by (auto simp: and_then_Inr_iff)
  have "P s1" using Cons.prems(3)[OF _ Cons.prems(2) b] by simp
  then show ?case using Cons.IH[OF r] Cons.prems(3) by auto
qed

lemma for_each_establish:
  assumes run: "for_each xs body s = Inr s'" and sub: "set xs \<subseteq> A" and inv0: "P s"
    and inv: "\<And>i s s'. i \<in> A \<Longrightarrow> P s \<Longrightarrow> body i s = Inr s' \<Longrightarrow> P s'"
    and est: "\<And>i s s'. i \<in> A \<Longrightarrow> P s \<Longrightarrow> body i s = Inr s' \<Longrightarrow> R i s'"
    and pres: "\<And>i j s s'. i \<in> A \<Longrightarrow> j \<in> A \<Longrightarrow> P s \<Longrightarrow> body i s = Inr s' \<Longrightarrow> R j s \<Longrightarrow> R j s'"
  shows "P s' \<and> (\<forall>i\<in>set xs. R i s')"
  using run sub inv0
proof (induction xs arbitrary: s)
  case Nil
  then show ?case by simp
next
  case (Cons i xs)
  from Cons.prems(1) obtain s1 where b: "body i s = Inr s1" and r: "for_each xs body s1 = Inr s'"
    by (auto simp: and_then_Inr_iff)
  have iA: "i \<in> A" and xsA: "set xs \<subseteq> A" using Cons.prems(2) by auto
  have P1: "P s1" using inv[OF iA Cons.prems(3) b] .
  have R1: "R i s1" using est[OF iA Cons.prems(3) b] .
  have IH: "P s' \<and> (\<forall>k\<in>set xs. R k s')" using Cons.IH[OF r xsA P1] .
  have "P s1 \<and> R i s1" using P1 R1 by simp
  then have "P s' \<and> R i s'"
  proof (rule for_each_preserve[OF r])
    fix k t t' assume k: "k \<in> set xs" and h: "P t \<and> R i t" and bt: "body k t = Inr t'"
    have kA: "k \<in> A" using k xsA by auto
    show "P t' \<and> R i t'" using inv[OF kA _ bt] pres[OF kA iA _ bt] h by simp
  qed
  then show ?case using IH by simp
qed

lemma np_index_nonneg: "np_index n i = Inr j \<Longrightarrow> 0 \<le> i \<Longrightarrow> j = nat i \<and> i < int n"
  by (auto simp: np_index_def split: if_splits)

lemma np_index_nat: "np_index n (int k) = Inr j \<longleftrightarrow> j = k \<and> k < n"
  by (auto simp: np_index_def split: if_splits)

lemma np_index_nat_ok: "k < n \<Longrightarrow> np_index n (int k) = Inr k"
  by (simp add: np_index_nat)

lemma update_parset_append:
  "ps ''predict.applycal.steps'' = Some (PList steps) \<Longrightarrow>
   fst (update_parset h5 ps) = None \<and>
   snd (update_parset h5 ps) ''predict.applycal.steps'' = Some (PList (steps @ [''tec'']))"
  by (simp add: update_parset_def)

lemma update_parset_create:
  "ps ''predict.applycal.steps'' = None \<Longrightarrow>
   fst (update_parset h5 ps) = None \<and>
   snd (update_parset h5 ps) ''predict.applycal.steps'' = Some (PList [''tec''])"
  by (simp add: update_parset_def)

lemma sample_cube_Return:
  "sample_cube obs c = Inr (Return n) \<Longrightarrow> n = 1"
  by (auto simp: sample_cube_def Let_def and_then_Inr_iff split: list.splits if_splits prod.splits)

lemma run_fits_Return: "run_fits obs h5 fits fs = Inr (Return n) \<Longrightarrow> n = 1"
proof -
  assume a: "run_fits obs h5 fits fs = Inr (Return n)"
  then obtain c r where c: "fits_open fs fits = Inr c" and r: "sample_cube obs c = Inr r"
    and k: "(case r of Return status \<Rightarrow> Inr (Return status)
             | Continue sol \<Rightarrow> and_then (write_h5parm obs h5 (case fits of Some n \<Rightarrow> n | None \<Rightarrow> ''None'') sol fs)
                 (\<lambda>fs'. Inr (Continue fs'))) = Inr (Return n)"
    by (auto simp: run_fits_def and_then_Inr_iff)
  from k have "r = Return n" by (cases r) (auto simp: and_then_Inr_iff)
  then show "n = 1" using r sample_cube_Return by blast
qed

lemma getaltaz_raises: "getaltaz radec = Inl NameError"
  by (simp add: getaltaz_def load_global_def module_globals_def)

lemma run_wave_fault:
  "run_wave obs fs =
     Inl (if zip (patch_ras obs) (patch_decs obs) = [] then ZeroDivisionError else NameError)"
proof (cases "zip (patch_ras obs) (patch_decs obs)")
  case Nil
  show ?thesis unfolding run_wave_def Let_def Nil by (simp add: py_truediv_def)
next
  case (Cons radec rest)
  show ?thesis unfolding run_wave_def Let_def Cons by (simp add: getaltaz_raises)
qed

lemma run_status0:
  assumes "fst (run obs m h5 fits fs) = Inr 0"
  shows "fst (update_parset h5 (parset_parameters obs)) = None \<and>
         parset_parameters (fst (snd (run obs m h5 fits fs))) = snd (update_parset h5 (parset_parameters obs))"
proof -
  let ?b = "if m = ''fits'' then run_fits obs h5 fits fs
            else if m = ''wave'' then run_wave obs fs else Inr (Continue fs)"
  have nr: "?b \<noteq> Inr (Return 0)"
    using run_fits_Return[of obs h5 fits fs 0] by (auto simp: run_wave_fault)
  show ?thesis
  proof (cases ?b)
    case (Inl e)
    then show ?thesis using assms by (simp add: run_def)
  next
    case (Inr r)
    show ?thesis
    proof (cases r)
      case (Return n)
      then show ?thesis using assms Inr nr by (simp add: run_def)
    next
      case (Continue fs')
      then show ?thesis using assms Inr
        by (cases "update_parset h5 (parset_parameters obs)")
           (auto simp: run_def split: option.splits)
    qed
  qed
qed

lemma fill_axis_nth: "i < n \<Longrightarrow> fill_axis r d n ! i = r + d * real i"
  by (simp add: fill_axis_def)

lemma fill_axis_length: "length (fill_axis r d n) = n"
  by (simp add: fill_axis_def)

lemma run_other: "m \<noteq> ''fits'' \<Longrightarrow> m \<noteq> ''wave'' \<Longrightarrow> run obs m h5 fits fs =
   (case update_parset h5 (parset_parameters obs) of
             (Some e, ps) \<Rightarrow> (Inl e, obs\<lparr>parset_parameters := ps\<rparr>, fs)
           | (None, ps) \<Rightarrow> (Inr 0, obs\<lparr>parset_parameters := ps\<rparr>, fs))"
  by (simp add: run_def)

lemma np_get5:
  assumes "shape dat = [nt, nf, ns, ny, nx]" "0 \<le> y" "0 \<le> x"
  shows "np_get dat [int t, int f, int s, y, x] = Inr v \<longleftrightarrow>
         t < nt \<and> f < nf \<and> s < ns \<and> y < int ny \<and> x < int nx \<and> v = cell dat [t, f, s, nat y, nat x]"
  using assms
  by (auto simp: np_get_def and_then_Inr_iff np_index_nat dest: np_index_nonneg)
     (auto simp: np_index_def)

lemma np_set4:
  assumes "shape a = [n0, n1, n2, n3]"
  shows "np_set a [int t, int s, int d, int f] v = Inr a' \<longleftrightarrow>
         t < n0 \<and> s < n1 \<and> d < n2 \<and> f < n3 \<and> a' = a\<lparr>cell := (cell a)([t, s, d, f] := v)\<rparr>"
  using assms
  by (auto simp: np_set_def and_then_Inr_iff np_index_nat)

lemma copy_cell_effect:
  assumes "shape dat = [nt, nf, ns, ny, nx]" "shape vs = [n0, n1, n2, n3]" "0 \<le> y" "0 \<le> x"
    and "copy_cell dat d y x t f s vs = Inr vs'"
  shows "vs' = vs\<lparr>cell := (cell vs)([t, s, d, f] := cell dat [t, f, s, nat y, nat x])\<rparr>"
    and "y < int ny" and "x < int nx" and "d < n2"
  using assms
  by (auto simp: copy_cell_def and_then_Inr_iff np_get5 np_set4)

lemma for_each_lift:
  assumes step: "\<And>i s s'. i \<in> set xs \<Longrightarrow> Q s \<Longrightarrow> B i s = Inr s' \<Longrightarrow>
                   Q s' \<and> (\<forall>k\<in>K i. W k s') \<and> (\<forall>k. W k s \<longrightarrow> W k s')"
    and q: "Q s" and run: "for_each xs B s = Inr s'"
  shows "Q s' \<and> (\<forall>i\<in>set xs. \<forall>k\<in>K i. W k s') \<and> (\<forall>k. W k s \<longrightarrow> W k s')"
proof -
  have e: "Q s' \<and> (\<forall>i\<in>set xs. \<forall>k\<in>K i. W k s')"
    by (rule for_each_establish[where A = "set xs" and P = Q and R = "\<lambda>i s. \<forall>k\<in>K i. W k s",
          OF run _ q]) (use step in blast)+
  have "\<forall>k. W k s \<longrightarrow> W k s'"
  proof (intro allI impI)
    fix k assume w: "W k s"
    have "Q s' \<and> W k s'"
      by (rule for_each_preserve[where P = "\<lambda>s. Q s \<and> W k s", OF run]) (use q w step in blast)+
    then show "W k s'" by simp
  qed
  with e show ?thesis by simp
qed

lemma copy_cell_step:
  assumes dat: "shape dat = [nt, nf, ns, ny, nx]" and y: "0 \<le> y" and x: "0 \<le> x"
    and q: "shape vs = [n0, n1, n2, n3] \<and> (\<forall>js. (\<forall>t s f. js \<noteq> [t, s, d, f]) \<longrightarrow> cell vs js = cell vs0 js)"
    and c: "copy_cell dat d y x t f s vs = Inr vs'"
  shows "(shape vs' = [n0, n1, n2, n3] \<and> (\<forall>js. (\<forall>t s f. js \<noteq> [t, s, d, f]) \<longrightarrow> cell vs' js = cell vs0 js))
       \<and> (\<forall>k\<in>{(t, f, s)}. case k of (t, f, s) \<Rightarrow> cell vs' [t, s, d, f] = cell dat [t, f, s, nat y, nat x])
       \<and> (\<forall>k. (case k of (t, f, s) \<Rightarrow> cell vs [t, s, d, f] = cell dat [t, f, s, nat y, nat x]) \<longrightarrow>
               (case k of (t, f, s) \<Rightarrow> cell vs' [t, s, d, f] = cell dat [t, f, s, nat y, nat x]))"
proof -
  have s4: "shape vs = [n0, n1, n2, n3]" using q by simp
  have e: "vs' = vs\<lparr>cell := (cell vs)([t, s, d, f] := cell dat [t, f, s, nat y, nat x])\<rparr>"
    using copy_cell_effect(1)[OF dat s4 y x c] .
  show ?thesis using q by (auto simp: e)
qed

lemma copy_pixel_effect:
  assumes dat: "shape dat = [nt, nf, ns, ny, nx]" and y: "0 \<le> y" and x: "0 \<le> x"
    and s4: "shape vs = [n0, n1, n2, n3]"
    and c: "copy_pixel dat mt mf ms d y x vs = Inr vs'"
  shows "shape vs' = [n0, n1, n2, n3]"
    and "\<And>js. (\<And>t s f. js \<noteq> [t, s, d, f]) \<Longrightarrow> cell vs' js = cell vs js"
    and "\<And>t f s. t < mt \<Longrightarrow> f < mf \<Longrightarrow> s < ms \<Longrightarrow>
           cell vs' [t, s, d, f] = cell dat [t, f, s, nat y, nat x]"
proof -
  let ?Q = "\<lambda>v. shape v = [n0, n1, n2, n3] \<and> (\<forall>js. (\<forall>t s f. js \<noteq> [t, s, d, f]) \<longrightarrow> cell v js = cell vs js)"
  let ?W = "\<lambda>k v. case k of (t, f, s) \<Rightarrow> cell v [t, s, d, f] = cell dat [t, f, s, nat y, nat x]"
  have q0: "?Q vs" using s4 by simp
  have Ls: "?Q v' \<and> (\<forall>i\<in>set [0..<ms]. \<forall>k\<in>{(t, f, i)}. ?W k v') \<and> (\<forall>k. ?W k v \<longrightarrow> ?W k v')"
    if "?Q v" and "for_each [0..<ms] (\<lambda>s. copy_cell dat d y x t f s) v = Inr v'" for t f v v'
    by (rule for_each_lift[where Q = ?Q and W = ?W and K = "\<lambda>i. {(t, f, i)}", OF _ that])
       (rule copy_cell_step[OF dat y x])
  have Lf: "?Q v' \<and> (\<forall>i\<in>set [0..<mf]. \<forall>k\<in>{(t, i, s) | s. s < ms}. ?W k v') \<and> (\<forall>k. ?W k v \<longrightarrow> ?W k v')"
    if "?Q v" and "for_each [0..<mf] (\<lambda>f. for_each [0..<ms] (\<lambda>s. copy_cell dat d y x t f s)) v = Inr v'"
    for t v v'
  proof (rule for_each_lift[where Q = ?Q and W = ?W and K = "\<lambda>i. {(t, i, s) | s. s < ms}", OF _ that])
    fix i u u' assume "?Q u" and "for_each [0..<ms] (copy_cell dat d y x t i) u = Inr u'"
    from Ls[OF this]
    show "?Q u' \<and> (\<forall>k\<in>{(t, i, s) | s. s < ms}. ?W k u') \<and> (\<forall>k. ?W k u \<longrightarrow> ?W k u')"
      by auto
  qed
  have Lt: "?Q vs' \<and> (\<forall>i\<in>set [0..<mt]. \<forall>k\<in>{(i, f, s) | f s. f < mf \<and> s < ms}. ?W k vs') \<and> (\<forall>k. ?W k vs \<longrightarrow> ?W k vs')"
  proof (rule for_each_lift[where Q = ?Q and W = ?W and K = "\<lambda>i. {(i, f, s) | f s. f < mf \<and> s < ms}", OF _ q0 c[unfolded copy_pixel_def]])
    fix i u u' assume "?Q u" and "for_each [0..<mf] (\<lambda>f. for_each [0..<ms] (copy_cell dat d y x i f)) u = Inr u'"
    from Lf[OF this]
    show "?Q u' \<and> (\<forall>k\<in>{(i, f, s) | f s. f < mf \<and> s < ms}. ?W k u') \<and> (\<forall>k. ?W k u \<longrightarrow> ?W k u')"
      by auto
  qed
  show "shape vs' = [n0, n1, n2, n3]" using Lt by simp
  show "\<And>js. (\<And>t s f. js \<noteq> [t, s, d, f]) \<Longrightarrow> cell vs' js = cell vs js" using Lt by simp
  show "\<And>t f s. t < mt \<Longrightarrow> f < mf \<Longrightarrow> s < ms \<Longrightarrow>
           cell vs' [t, s, d, f] = cell dat [t, f, s, nat y, nat x]" using Lt by auto
qed

lemma in_shape4:
  "in_shape [n0, n1, n2, n3] js \<longleftrightarrow>
   (\<exists>t s d f. js = [t, s, d, f] \<and> t < n0 \<and> s < n1 \<and> d < n2 \<and> f < n3)"
  by (auto simp: in_shape_def list_all2_Cons2)

lemma np_set_dir_effect:
  assumes "shape a = [n0, n1, n2, n3]" and "np_set_dir a (int d) v = Inr a'"
  shows "d < n2"
    and "a' = a\<lparr>cell := (\<lambda>js. if in_shape [n0, n1, n2, n3] js \<and> js ! 2 = d then v else cell a js)\<rparr>"
  using assms by (auto simp: np_set_dir_def and_then_Inr_iff np_index_nat)

lemma pixel_of_Inr:
  "pixel_of c ra dec = Inr (x, y) \<longleftrightarrow>
   py_int (fst (wcs_world2pix c ra dec)) = Inr x \<and> py_int (snd (wcs_world2pix c ra dec)) = Inr y"
  by (auto simp: pixel_of_def and_then_Inr_iff)

lemma sample_direction_flagged:
  assumes s: "shape vs = [nt, ns, nd, nf]" "shape ws = [nt, ns, nd, nf]"
    and p: "pixel_of c ra dec = Inr (x, y)" and fl: "flagged nx ny x y"
    and b: "sample_direction c nt nf ns ny nx (d, ra, dec) (vs, ws) = Inr (vs', ws')"
  shows "d < nd"
    and "vs' = vs\<lparr>cell := (\<lambda>js. if in_shape [nt, ns, nd, nf] js \<and> js ! 2 = d then Fin 1 else cell vs js)\<rparr>"
    and "ws' = ws\<lparr>cell := (\<lambda>js. if in_shape [nt, ns, nd, nf] js \<and> js ! 2 = d then Fin 0 else cell ws js)\<rparr>"
proof -
  from b p fl obtain v1 w1 where v1: "np_set_dir vs (int d) (Fin 1) = Inr v1"
    and w1: "np_set_dir ws (int d) (Fin 0) = Inr w1" and e: "vs' = v1" "ws' = w1"
    by (auto simp: sample_direction_def and_then_Inr_iff)
  show "d < nd" using np_set_dir_effect(1)[OF s(1) v1] .
  show "vs' = vs\<lparr>cell := (\<lambda>js. if in_shape [nt, ns, nd, nf] js \<and> js ! 2 = d then Fin 1 else cell vs js)\<rparr>"
    using np_set_dir_effect(2)[OF s(1) v1] e by simp
  show "ws' = ws\<lparr>cell := (\<lambda>js. if in_shape [nt, ns, nd, nf] js \<and> js ! 2 = d then Fin 0 else cell ws js)\<rparr>"
    using np_set_dir_effect(2)[OF s(2) w1] e by simp
qed

lemma sample_direction_copied:
  assumes p: "pixel_of c ra dec = Inr (x, y)" and fl: "\<not> flagged nx ny x y"
    and b: "sample_direction c nt nf ns ny nx (d, ra, dec) (vs, ws) = Inr (vs', ws')"
  shows "ws' = ws" and "copy_pixel (data c) nt nf ns d y x vs = Inr vs'" and "0 \<le> x" and "0 \<le> y"
  using assms by (auto simp: sample_direction_def and_then_Inr_iff flagged_def)

lemma sample_direction_pixel:
  assumes "sample_direction c nt nf ns ny nx (d, ra, dec) s = Inr s'"
  obtains x y where "pixel_of c ra dec = Inr (x, y)"
  using assms by (cases s) (auto simp: sample_direction_def and_then_Inr_iff)

lemma enumerate_zip_set:
  "(d, a, b) \<in> set (enumerate_zip xs ys) \<longleftrightarrow> d < length xs \<and> d < length ys \<and> a = xs ! d \<and> b = ys ! d"
proof
  assume "(d, a, b) \<in> set (enumerate_zip xs ys)"
  then show "d < length xs \<and> d < length ys \<and> a = xs ! d \<and> b = ys ! d"
    by (auto simp: enumerate_zip_def in_set_zip)
next
  assume h: "d < length xs \<and> d < length ys \<and> a = xs ! d \<and> b = ys ! d"
  then have "[0..<min (length xs) (length ys)] ! d = d \<and> zip xs ys ! d = (a, b)
             \<and> d < length [0..<min (length xs) (length ys)] \<and> d < length (zip xs ys)"
    by simp
  then show "(d, a, b) \<in> set (enumerate_zip xs ys)"
    unfolding enumerate_zip_def in_set_zip by (intro exI[of _ d]) simp
qed

lemma sample_directions_effect:
  fixes c nt nf ns ny nx nd ras decs
  defines "S \<equiv> [nt, ns, nd, nf]"
  defines "A \<equiv> set (enumerate_zip ras decs)"
  assumes dat: "shape (data c) = [nt, nf, ns, ny, nx]"
    and run: "for_each (enumerate_zip ras decs) (sample_direction c nt nf ns ny nx)
                (np_zeros S, np_ones S) = Inr (vs, ws)"
  shows "shape vs = S" and "shape ws = S"
    and "\<And>js. cell ws js = Fin 1 \<or> cell ws js = Fin 0"
    and "\<And>js. cell ws js = Fin 0 \<Longrightarrow>
           \<exists>d ra dec x y. (d, ra, dec) \<in> A \<and> js ! 2 = d \<and> in_shape S js \<and>
             pixel_of c ra dec = Inr (x, y) \<and> flagged nx ny x y"
    and "\<And>d ra dec. (d, ra, dec) \<in> A \<Longrightarrow>
           \<exists>x y. pixel_of c ra dec = Inr (x, y) \<and>
             (if flagged nx ny x y
              then d < nd \<and> (\<forall>js. in_shape S js \<and> js ! 2 = d \<longrightarrow> cell vs js = Fin 1 \<and> cell ws js = Fin 0)
              else 0 \<le> x \<and> 0 \<le> y \<and>
                   (\<forall>t<nt. \<forall>f<nf. \<forall>s<ns. cell vs [t, s, d, f] = cell (data c) [t, f, s, nat y, nat x]))"
proof -
  define P where "P = (\<lambda>(vs :: ndarray, ws :: ndarray). shape vs = S \<and> shape ws = S \<and>
      (\<forall>js. cell ws js = Fin 1 \<or> cell ws js = Fin 0) \<and>
      (\<forall>js. cell ws js = Fin 0 \<longrightarrow>
           (\<exists>d ra dec x y. (d, ra, dec) \<in> A \<and> js ! 2 = d \<and> in_shape S js \<and>
             pixel_of c ra dec = Inr (x, y) \<and> flagged nx ny x y)))"
  define R where "R = (\<lambda>(d :: nat, ra :: real, dec :: real) (vs :: ndarray, ws :: ndarray).
      \<exists>x y. pixel_of c ra dec = Inr (x, y) \<and>
             (if flagged nx ny x y
              then d < nd \<and> (\<forall>js. in_shape S js \<and> js ! 2 = d \<longrightarrow> cell vs js = Fin 1 \<and> cell ws js = Fin 0)
              else 0 \<le> x \<and> 0 \<le> y \<and>
                   (\<forall>t<nt. \<forall>f<nf. \<forall>s<ns. cell vs [t, s, d, f] = cell (data c) [t, f, s, nat y, nat x])))"
  have P0: "P (np_zeros S, np_ones S)"
    by (simp add: P_def np_zeros_def np_ones_def np_full_def)
  have inv: "P s'" if i: "i \<in> A" and p: "P s" and b: "sample_direction c nt nf ns ny nx i s = Inr s'" for i s s'
  proof -
    obtain d ra dec where ie: "i = (d, ra, dec)" by (cases i) auto
    obtain v w where se: "s = (v, w)" by (cases s) auto
    obtain v' w' where se': "s' = (v', w')" by (cases s') auto
    have sv: "shape v = [nt, ns, nd, nf]" and sw: "shape w = [nt, ns, nd, nf]"
      using p by (auto simp: P_def se S_def)
    from b obtain x y where px: "pixel_of c ra dec = Inr (x, y)"
      unfolding ie by (rule sample_direction_pixel)
    show ?thesis
    proof (cases "flagged nx ny x y")
      case True
      note e = sample_direction_flagged[OF sv sw px True b[unfolded ie se se']]
      show ?thesis unfolding se' P_def using p i True px
        by (auto simp: e se P_def S_def sv sw ie)
    next
      case False
      note e = sample_direction_copied[OF px False b[unfolded ie se se']]
      note k = copy_pixel_effect[OF dat e(4) e(3) sv e(2)]
      show ?thesis unfolding se' P_def using p
        by (simp add: e(1) k(1) se P_def S_def)
    qed
  qed
  have est: "R i s'" if i: "i \<in> A" and p: "P s" and b: "sample_direction c nt nf ns ny nx i s = Inr s'" for i s s'
  proof -
    obtain d ra dec where ie: "i = (d, ra, dec)" by (cases i) auto
    obtain v w where se: "s = (v, w)" by (cases s) auto
    obtain v' w' where se': "s' = (v', w')" by (cases s') auto
    have sv: "shape v = [nt, ns, nd, nf]" and sw: "shape w = [nt, ns, nd, nf]"
      using p by (auto simp: P_def se S_def)
    from b obtain x y where px: "pixel_of c ra dec = Inr (x, y)"
      unfolding ie by (rule sample_direction_pixel)
    show ?thesis
    proof (cases "flagged nx ny x y")
      case True
      note e = sample_direction_flagged[OF sv sw px True b[unfolded ie se se']]
      show ?thesis unfolding se' R_def ie using True px
        by (auto simp: e S_def)
    next
      case False
      note e = sample_direction_copied[OF px False b[unfolded ie se se']]
      note k = copy_pixel_effect[OF dat e(4) e(3) sv e(2)]
      show ?thesis unfolding se' R_def ie using False px e(3,4) k(3)
        by auto
    qed
  qed
  have pres: "R j s'" if i: "i \<in> A" and j: "j \<in> A" and p: "P s"
    and b: "sample_direction c nt nf ns ny nx i s = Inr s'" and r: "R j s" for i j s s'
  proof (cases "fst i = fst j")
    case True
    then have "i = j" using i j by (cases i; cases j) (auto simp: A_def enumerate_zip_set)
    then show ?thesis using est[OF i p b] by simp
  next
    case ne: False
    obtain d ra dec where ie: "i = (d, ra, dec)" by (cases i) auto
    obtain d' ra' dec' where je: "j = (d', ra', dec')" by (cases j) auto
    have dd: "d' \<noteq> d" using ne ie je by auto
    obtain v w where se: "s = (v, w)" by (cases s) auto
    obtain v' w' where se': "s' = (v', w')" by (cases s') auto
    have sv: "shape v = [nt, ns, nd, nf]" and sw: "shape w = [nt, ns, nd, nf]"
      using p by (auto simp: P_def se S_def)
    from b obtain x y where px: "pixel_of c ra dec = Inr (x, y)"
      unfolding ie by (rule sample_direction_pixel)
    have fr: "cell v' js = cell v js \<and> cell w' js = cell w js" if "js ! 2 = d'" for js
    proof (cases "flagged nx ny x y")
      case True
      note e = sample_direction_flagged[OF sv sw px True b[unfolded ie se se']]
      show ?thesis using that dd by (simp add: e)
    next
      case False
      note e = sample_direction_copied[OF px False b[unfolded ie se se']]
      note k = copy_pixel_effect[OF dat e(4) e(3) sv e(2)]
      have "\<And>t s f. js \<noteq> [t, s, d, f]" using that dd by auto
      then show ?thesis using k(2) e(1) by simp
    qed
    from r obtain x' y' where px': "pixel_of c ra' dec' = Inr (x', y')"
      and r': "if flagged nx ny x' y'
              then d' < nd \<and> (\<forall>js. in_shape S js \<and> js ! 2 = d' \<longrightarrow> cell v js = Fin 1 \<and> cell w js = Fin 0)
              else 0 \<le> x' \<and> 0 \<le> y' \<and>
                   (\<forall>t<nt. \<forall>f<nf. \<forall>s<ns. cell v [t, s, d', f] = cell (data c) [t, f, s, nat y', nat x'])"
      unfolding R_def se je by auto
    have "if flagged nx ny x' y'
              then d' < nd \<and> (\<forall>js. in_shape S js \<and> js ! 2 = d' \<longrightarrow> cell v' js = Fin 1 \<and> cell w' js = Fin 0)
              else 0 \<le> x' \<and> 0 \<le> y' \<and>
                   (\<forall>t<nt. \<forall>f<nf. \<forall>s<ns. cell v' [t, s, d', f] = cell (data c) [t, f, s, nat y', nat x'])"
    proof (cases "flagged nx ny x' y'")
      case True
      then show ?thesis using r' fr by simp
    next
      case False
      have "cell v' [t, s, d', f] = cell v [t, s, d', f]" for t s f
        using fr[of "[t, s, d', f]"] by simp
      then show ?thesis using r' False by simp
    qed
    then show ?thesis unfolding R_def se' je using px' by auto
  qed
  have fin: "P (vs, ws) \<and> (\<forall>i\<in>set (enumerate_zip ras decs). R i (vs, ws))"
    by (rule for_each_establish[where A = A and P = P and R = R, OF run _ P0])
       (auto simp: A_def intro: inv est pres)
  show "shape vs = S" and "shape ws = S" and "\<And>js. cell ws js = Fin 1 \<or> cell ws js = Fin 0"
    using fin by (auto simp: P_def)
  show "\<And>js. cell ws js = Fin 0 \<Longrightarrow>
           \<exists>d ra dec x y. (d, ra, dec) \<in> A \<and> js ! 2 = d \<and> in_shape S js \<and>
             pixel_of c ra dec = Inr (x, y) \<and> flagged nx ny x y"
    using fin unfolding P_def by simp
  show "\<And>d ra dec. (d, ra, dec) \<in> A \<Longrightarrow>
           \<exists>x y. pixel_of c ra dec = Inr (x, y) \<and>
             (if flagged nx ny x y
              then d < nd \<and> (\<forall>js. in_shape S js \<and> js ! 2 = d \<longrightarrow> cell vs js = Fin 1 \<and> cell ws js = Fin 0)
              else 0 \<le> x \<and> 0 \<le> y \<and>
                   (\<forall>t<nt. \<forall>f<nf. \<forall>s<ns. cell vs [t, s, d, f] = cell (data c) [t, f, s, nat y, nat x]))"
    using fin unfolding R_def A_def by fastforce
qed

lemma os_remove_Inr: "os_remove fs p = Inr fs1 \<Longrightarrow> fs1 = fs(p := None)"
  by (cases "fs p") (auto simp: os_remove_def split: fobj.splits)

lemma h5parm_open_absent: "fs p = None \<Longrightarrow> h5parm_open fs p = Inr []"
  by (simp add: h5parm_open_def)

lemma write_h5parm_Inr:
  assumes "write_h5parm obs h5 name sol fs = Inr fs'"
  shows "fs' = fs(h5 \<mapsto> H5parm [tec_solset obs h5 name sol])"
proof -
  from assms obtain fs1 ho where
    a: "(if os_path_exists fs h5 then os_remove fs h5 else Inr fs) = Inr fs1"
    and b: "h5parm_open fs1 h5 = Inr ho"
    and c: "fs' = fs1(h5 \<mapsto> H5parm (ho @ [tec_solset obs h5 name sol]))"
    by (auto simp: write_h5parm_def and_then_Inr_iff)
  have n: "fs1 h5 = None \<and> fs1 = fs(h5 := None)"
  proof (cases "os_path_exists fs h5")
    case True
    then have "fs1 = fs(h5 := None)" using a os_remove_Inr by simp
    then show ?thesis by simp
  next
    case False
    then have "fs h5 = None" by (simp add: os_path_exists_def split: option.splits)
    moreover have "fs1 = fs" using a False by simp
    ultimately show ?thesis by auto
  qed
  then have "ho = []" using b h5parm_open_absent by fastforce
  then show ?thesis using c n by simp
qed

lemma fits_open_Inr:
  "fits_open fs fits = Inr c \<longleftrightarrow> (\<exists>name. fits = Some name \<and> name \<noteq> [] \<and> fs name = Some (Fits c))"
proof (cases fits)
  case None
  then show ?thesis by (simp add: fits_open_def)
next
  case (Some name)
  show ?thesis
  proof (cases "fs name")
    case None
    then show ?thesis using Some by (simp add: fits_open_def)
  next
    case (Some a)
    then show ?thesis using \<open>fits = Some name\<close> by (cases a) (simp_all add: fits_open_def)
  qed
qed

lemma sample_cube_Continue:
  assumes "sample_cube obs c = Inr (Continue sol)"
  obtains nt nf ns ny nx t_ref t_del f_ref f_del where
    "shape (data c) = [nt, nf, ns, ny, nx]" and "ns = length (stations obs)"
    and "for_each (enumerate_zip (patch_ras obs) (patch_decs obs))
           (sample_direction c nt nf ns ny nx)
           (np_zeros [nt, ns, length (patch_names obs), nf],
            np_ones [nt, ns, length (patch_names obs), nf]) = Inr (sol_vals sol, sol_weights sol)"
    and "header c ''CRVAL4'' = Some t_ref" and "header c ''CDELT4'' = Some t_del"
    and "header c ''CRVAL3'' = Some f_ref" and "header c ''CDELT3'' = Some f_del"
    and "sol_times sol = fill_axis t_ref t_del nt" and "sol_freqs sol = fill_axis f_ref f_del nf"
    and "sol_ants sol = stations obs"
proof -
  from assms obtain nt nf ns ny nx where shp: "shape (data c) = [nt, nf, ns, ny, nx]"
    by (auto simp: sample_cube_def split: list.splits)
  have ns: "ns = length (stations obs)"
    using assms shp by (auto simp: sample_cube_def split: if_splits)
  let ?S = "[nt, ns, length (patch_names obs), nf]"
  from assms shp ns obtain vs ws t_ref t_del f_ref f_del where
    l: "for_each (enumerate_zip (patch_ras obs) (patch_decs obs))
           (sample_direction c nt nf ns ny nx) (np_zeros ?S, np_ones ?S) = Inr (vs, ws)"
    and h: "header_get c ''CRVAL4'' = Inr t_ref" "header_get c ''CDELT4'' = Inr t_del"
       "header_get c ''CRVAL3'' = Inr f_ref" "header_get c ''CDELT3'' = Inr f_del"
    and e: "sol = \<lparr>sol_vals = vs, sol_weights = ws, sol_times = fill_axis t_ref t_del nt,
                   sol_freqs = fill_axis f_ref f_del nf, sol_ants = stations obs\<rparr>"
    by (auto simp: sample_cube_def Let_def and_then_Inr_iff np_zeros_def np_ones_def np_full_def)
  have h': "header c ''CRVAL4'' = Some t_ref" "header c ''CDELT4'' = Some t_del"
       "header c ''CRVAL3'' = Some f_ref" "header c ''CDELT3'' = Some f_del"
    using h by (auto simp: header_get_def split: option.splits)
  show ?thesis
    by (rule that[OF shp ns _ h']) (simp_all add: e l)
qed

lemma run_fits_Continue:
  assumes "run_fits obs h5 fits fs = Inr (Continue fs')"
  obtains name c sol where "fits = Some name" and "fs name = Some (Fits c)"
    and "sample_cube obs c = Inr (Continue sol)"
    and "fs' = fs(h5 \<mapsto> H5parm [tec_solset obs h5 name sol])"
proof -
  from assms obtain c r where c: "fits_open fs fits = Inr c" and r: "sample_cube obs c = Inr r"
    and k: "(case r of Return status \<Rightarrow> Inr (Return status)
             | Continue sol \<Rightarrow> and_then (write_h5parm obs h5 (case fits of Some n \<Rightarrow> n | None \<Rightarrow> ''None'') sol fs)
                 (\<lambda>fs'. Inr (Continue fs'))) = Inr (Continue fs')"
    by (auto simp: run_fits_def and_then_Inr_iff)
  from c obtain name where n: "fits = Some name" "fs name = Some (Fits c)"
    by (auto simp: fits_open_Inr)
  from k obtain sol where s: "r = Continue sol" and w: "write_h5parm obs h5 name sol fs = Inr fs'"
    using n by (cases r) (auto simp: and_then_Inr_iff)
  show ?thesis using that[OF n r[unfolded s] write_h5parm_Inr[OF w]] .
qed

lemma run_fits_ok:
  assumes "run obs ''fits'' h5 fits fs = (Inr 0, obs', fs')"
  obtains name c sol where "fits = Some name" and "fs name = Some (Fits c)"
    and "sample_cube obs c = Inr (Continue sol)"
    and "fs' = fs(h5 \<mapsto> H5parm [tec_solset obs h5 name sol])"
    and "obs' = obs\<lparr>parset_parameters := snd (update_parset h5 (parset_parameters obs))\<rparr>"
proof -
  have "\<exists>fs1. run_fits obs h5 fits fs = Inr (Continue fs1) \<and> fs' = fs1
          \<and> obs' = obs\<lparr>parset_parameters := snd (update_parset h5 (parset_parameters obs))\<rparr>"
  proof (cases "run_fits obs h5 fits fs")
    case (Inl e)
    then show ?thesis using assms by (simp add: run_def)
  next
    case (Inr r)
    show ?thesis
    proof (cases r)
      case (Return n)
      then have "n = 1" using Inr run_fits_Return by blast
      then show ?thesis using assms Inr Return by (simp add: run_def)
    next
      case (Continue fs1)
      then show ?thesis using assms Inr
        by (cases "update_parset h5 (parset_parameters obs)")
           (auto simp: run_def split: option.splits)
    qed
  qed
  then obtain fs1 where r: "run_fits obs h5 fits fs = Inr (Continue fs1)" and e: "fs' = fs1"
    and o: "obs' = obs\<lparr>parset_parameters := snd (update_parset h5 (parset_parameters obs))\<rparr>"
    by blast
  from r show ?thesis
    by (rule run_fits_Continue) (use that e o in blast)
qed

lemma tec_table_written:
  "tec_table (fs(h5 \<mapsto> H5parm [tec_solset obs h5 name sol])) h5 =
     Some \<lparr>soltype = ''tec'', soltabName = ''tec000'',
           axesNames = [''time'', ''ant'', ''dir'', ''freq''],
           axis_time = sol_times sol, axis_ant = sol_ants sol,
           axis_dir = patch_names obs, axis_freq = sol_freqs sol,
           vals = sol_vals sol, weights = sol_weights sol,
           history = [create_entry h5 name]\<rparr>"
  by (simp add: tec_table_def getSoltab_def tec_solset_def makeSolset_def Let_def addHistory_def)

section \<open>The small observation, evaluated\<close>

lemma upt_small: "[0..<1] = [0]" "[0..<2] = [0, 1]" "[0..<3] = [0, 1, 2]"
  by (simp_all add: upt_rec)

lemma ex_sample: "\<exists>sol. sample_cube (ex_obs\<lparr>parset_parameters := p\<rparr>) ex_cube = Inr (Continue sol)"
  by (simp add: sample_cube_def ex_obs_def ex_cube_def enumerate_zip_def upt_small Let_def
      sample_direction_def pixel_of_def flagged_def np_set_dir_def np_zeros_def np_ones_def
      np_full_def np_index_def copy_pixel_def copy_cell_def np_get_def np_set_def header_get_def)

lemma ex_write: "\<exists>fs'. write_h5parm obs ''out.h5'' ''tec.fits'' sol ex_fs = Inr fs'"
  by (simp add: write_h5parm_def os_path_exists_def ex_fs_def os_remove_def h5parm_open_def)

lemma ex_run_fits:
  "\<exists>fs'. run_fits (ex_obs\<lparr>parset_parameters := p\<rparr>) ''out.h5'' (Some ''tec.fits'') ex_fs = Inr (Continue fs')"
proof -
  obtain sol where s: "sample_cube (ex_obs\<lparr>parset_parameters := p\<rparr>) ex_cube = Inr (Continue sol)"
    using ex_sample by blast
  obtain fs' where w: "write_h5parm (ex_obs\<lparr>parset_parameters := p\<rparr>) ''out.h5'' ''tec.fits'' sol ex_fs = Inr fs'"
    using ex_write by blast
  have f: "fits_open ex_fs (Some ''tec.fits'') = Inr ex_cube"
    by (simp add: fits_open_def ex_fs_def)
  show ?thesis by (simp add: run_fits_def f s w)
qed

lemma ex_run_status:
  assumes "fst (update_parset ''out.h5'' p) = None"
  shows "fst (run (ex_obs\<lparr>parset_parameters := p\<rparr>) ''fits'' ''out.h5'' (Some ''tec.fits'') ex_fs) = Inr 0"
proof -
  obtain fs' where r: "run_fits (ex_obs\<lparr>parset_parameters := p\<rparr>) ''out.h5'' (Some ''tec.fits'') ex_fs = Inr (Continue fs')"
    using ex_run_fits by blast
  show ?thesis using assms
    by (cases "update_parset ''out.h5'' p") (simp add: run_def r)
qed

lemma ex_obs_parset: "ex_obs\<lparr>parset_parameters := [''predict.applycal.steps'' \<mapsto> PList [''beam'']]\<rparr> = ex_obs"
  by (simp add: ex_obs_def)

lemma ex_run:
  "run ex_obs ''fits'' ''out.h5'' (Some ''tec.fits'') ex_fs =
     (Inr 0, fst (snd ex_result), snd (snd ex_result))"
proof -
  have "fst (update_parset ''out.h5'' [''predict.applycal.steps'' \<mapsto> PList [''beam'']]) = None"
    by (simp add: update_parset_def)
  from ex_run_status[OF this] show ?thesis
    by (simp add: ex_result_def prod_eq_iff ex_obs_parset)
qed

lemma bare_run:
  "run bare_obs ''fits'' ''out.h5'' (Some ''tec.fits'') ex_fs =
     (Inr 0, fst (snd bare_result), snd (snd bare_result))"
proof -
  have "fst (update_parset ''out.h5'' Map.empty) = None"
    by (simp add: update_parset_def)
  from ex_run_status[OF this] show ?thesis
    by (simp add: bare_result_def bare_obs_def prod_eq_iff)
qed

lemma list_of_length2: "length xs = 2 \<Longrightarrow> xs = [xs ! 0, xs ! 1]"
  by (cases xs; cases "tl xs") auto

lemma list_of_length1: "length xs = 1 \<Longrightarrow> xs = [xs ! 0]"
  by (cases xs) auto

section \<open>The claims\<close>

text \<open>
  Claim C6. A call that returns status 0 has updated the correction steps of the parset by
  appending or creating: where the key \<^verbatim>\<open>predict.applycal.steps\<close> held a list, the new
  list is the old one followed by \<^verbatim>\<open>tec\<close>, its entries kept in order; where the key was
  absent, the new list is \<^verbatim>\<open>['tec']\<close>.
\<close>

theorem steps_appended_or_created:
  assumes "run obs method h5 fits fs = (Inr 0, obs', fs')"
  shows "(\<forall>steps. parset_parameters obs ''predict.applycal.steps'' = Some (PList steps) \<longrightarrow>
            parset_parameters obs' ''predict.applycal.steps'' = Some (PList (steps @ [''tec''])))
       \<and> (parset_parameters obs ''predict.applycal.steps'' = None \<longrightarrow>
            parset_parameters obs' ''predict.applycal.steps'' = Some (PList [''tec'']))"
proof -
  have f: "fst (run obs method h5 fits fs) = Inr 0" using assms by simp
  have "parset_parameters obs' = snd (update_parset h5 (parset_parameters obs))"
    using run_status0[OF f] assms by simp
  then show ?thesis using update_parset_append update_parset_create by simp
qed

text \<open>
  On the small observation the list \<^verbatim>\<open>['beam']\<close> becomes \<^verbatim>\<open>['beam', 'tec']\<close>, and on the
  empty parset the list \<^verbatim>\<open>['tec']\<close> is created.
\<close>

theorem steps_appended_or_created_witness:
  "parset_parameters ex_obs ''predict.applycal.steps'' = Some (PList [''beam''])
   \<and> parset_parameters (fst (snd ex_result)) ''predict.applycal.steps'' = Some (PList [''beam'', ''tec''])
   \<and> parset_parameters bare_obs ''predict.applycal.steps'' = None
   \<and> parset_parameters (fst (snd bare_result)) ''predict.applycal.steps'' = Some (PList [''tec''])"
proof -
  have a: "parset_parameters ex_obs ''predict.applycal.steps'' = Some (PList [''beam''])"
    by (simp add: ex_obs_def)
  have b: "parset_parameters bare_obs ''predict.applycal.steps'' = None"
    by (simp add: bare_obs_def)
  show ?thesis
    using steps_appended_or_created[OF ex_run] steps_appended_or_created[OF bare_run] a b
    by simp
qed

text \<open>
  Claim C7. After a call with method fits that returns status 0, the time and frequency axes
  of the table written are linear in the index: entry \<open>i\<close> of the time axis is
  \<^verbatim>\<open>CRVAL4 + CDELT4 * i\<close> for every \<open>i\<close> below the number of times of the cube, entry \<open>i\<close> of
  the frequency axis is \<^verbatim>\<open>CRVAL3 + CDELT3 * i\<close> for every \<open>i\<close> below the number of
  frequencies, and the reference value is entry 0.
\<close>

theorem axes_linear:
  assumes "run obs ''fits'' h5 (Some name) fs = (Inr 0, obs', fs')"
    and "fs name = Some (Fits c)" and "shape (data c) = [nt, nf, ns, ny, nx]"
  shows "\<exists>st t_ref t_del f_ref f_del.
           tec_table fs' h5 = Some st \<and>
           header c ''CRVAL4'' = Some t_ref \<and> header c ''CDELT4'' = Some t_del \<and>
           header c ''CRVAL3'' = Some f_ref \<and> header c ''CDELT3'' = Some f_del \<and>
           length (axis_time st) = nt \<and> (\<forall>i<nt. axis_time st ! i = t_ref + t_del * real i) \<and>
           length (axis_freq st) = nf \<and> (\<forall>i<nf. axis_freq st ! i = f_ref + f_del * real i)"
proof -
  from assms(1) obtain name' c' sol where n: "Some name = Some name'" and c: "fs name' = Some (Fits c')"
    and s: "sample_cube obs c' = Inr (Continue sol)"
    and w: "fs' = fs(h5 \<mapsto> H5parm [tec_solset obs h5 name' sol])"
    by (rule run_fits_ok)
  have cc: "c' = c" using n c assms(2) by simp
  from s[unfolded cc] obtain nt' nf' ns' ny' nx' t_ref t_del f_ref f_del where
    shp: "shape (data c) = [nt', nf', ns', ny', nx']"
    and h: "header c ''CRVAL4'' = Some t_ref" "header c ''CDELT4'' = Some t_del"
       "header c ''CRVAL3'' = Some f_ref" "header c ''CDELT3'' = Some f_del"
    and a: "sol_times sol = fill_axis t_ref t_del nt'" "sol_freqs sol = fill_axis f_ref f_del nf'"
    by (rule sample_cube_Continue)
  have d: "nt' = nt" "nf' = nf" using shp assms(3) by simp_all
  show ?thesis unfolding w tec_table_written
    using h a d by (simp add: fill_axis_nth fill_axis_length)
qed

text \<open>On the small observation the axes are 100, 110 and 50.\<close>

theorem axes_linear_witness:
  "\<exists>st. tec_table (snd (snd ex_result)) ''out.h5'' = Some st \<and>
        axis_time st = [100, 110] \<and> axis_freq st = [50]"
proof -
  have f: "ex_fs ''tec.fits'' = Some (Fits ex_cube)" by (simp add: ex_fs_def)
  have s: "shape (data ex_cube) = [2, 1, 2, 2, 3]" by (simp add: ex_cube_def)
  from axes_linear[OF ex_run f s] obtain st t_ref t_del f_ref f_del where
    t: "tec_table (snd (snd ex_result)) ''out.h5'' = Some st"
    and h: "header ex_cube ''CRVAL4'' = Some t_ref" "header ex_cube ''CDELT4'' = Some t_del"
       "header ex_cube ''CRVAL3'' = Some f_ref" "header ex_cube ''CDELT3'' = Some f_del"
    and a: "length (axis_time st) = 2" "\<forall>i<2. axis_time st ! i = t_ref + t_del * real i"
       "length (axis_freq st) = 1" "\<forall>i<1. axis_freq st ! i = f_ref + f_del * real i"
    by (elim exE conjE)
  have v: "t_ref = 100" "t_del = 10" "f_ref = 50" "f_del = 5"
    using h by (simp_all add: ex_cube_def)
  have "axis_time st ! 0 = 100" "axis_time st ! 1 = 110" "axis_freq st ! 0 = 50"
    using a(2,4) v by simp_all
  then have "axis_time st = [100, 110]" "axis_freq st = [50]"
    using list_of_length2[OF a(1)] list_of_length1[OF a(3)] by simp_all
  then show ?thesis using t by blast
qed

text \<open>
  Claim C4. With method fits, when the number of stations of the cube differs from the
  number of stations of the observation, the call returns status 1 and changes nothing:
  the file system, the target path included, and the observation with its parset are as
  they were.
\<close>

theorem station_mismatch_aborts:
  assumes "fs name = Some (Fits c)" and "name \<noteq> []"
    and "shape (data c) = [nt, nf, ns, ny, nx]" and "ns \<noteq> length (stations obs)"
  shows "run obs ''fits'' h5 (Some name) fs = (Inr 1, obs, fs)"
proof -
  have f: "fits_open fs (Some name) = Inr c" using assms(1,2) by (simp add: fits_open_def)
  have s: "sample_cube obs c = Inr (Return 1)" using assms(3,4) by (simp add: sample_cube_def)
  show ?thesis by (simp add: run_def run_fits_def f s)
qed

text \<open>The cube of the small observation has two stations; the observation here has three.\<close>

theorem station_mismatch_aborts_witness:
  "ex_fs ''tec.fits'' = Some (Fits ex_cube) \<and> shape (data ex_cube) = [2, 1, 2, 2, 3]
   \<and> length (stations mismatch_obs) = 3
   \<and> run mismatch_obs ''fits'' ''out.h5'' (Some ''tec.fits'') ex_fs = (Inr 1, mismatch_obs, ex_fs)"
proof -
  have f: "ex_fs ''tec.fits'' = Some (Fits ex_cube)" by (simp add: ex_fs_def)
  have n: "''tec.fits'' \<noteq> []" by simp
  have s: "shape (data ex_cube) = [2, 1, 2, 2, 3]" by (simp add: ex_cube_def)
  have l: "length (stations mismatch_obs) = 3" by (simp add: mismatch_obs_def)
  have m: "2 \<noteq> length (stations mismatch_obs)" using l by simp
  show ?thesis using station_mismatch_aborts[where fs = ex_fs and name = "''tec.fits''", OF f n s m] f s l by simp
qed




text \<open>
  Claim C3, as stated, fails: the fractional pixel coordinate is not rounded to the nearest
  integer. The coordinate 3.7 gives pixel 3, where the nearest integer is 4.
\<close>

theorem pixel_not_nearest_counterexample:
  "wcs_world2pix ex_cube (37 / 10) (- 4 / 10) = (Fin (37 / 10), Fin (- 4 / 10))
   \<and> pixel_of ex_cube (37 / 10) (- 4 / 10) = Inr (3, 0)
   \<and> spec_nearest_pixel (37 / 10) = 4"
  by (simp add: pixel_of_def ex_cube_def spec_nearest_pixel_def round_def)

text \<open>
  Claim C3, amended. The fractional pixel coordinate is truncated toward zero: the integer
  pixel lies between zero and the coordinate, less than one away from the coordinate. This
  integer is the one that the bounds test and the lookup use.
\<close>

theorem pixel_truncated_toward_zero:
  assumes "wcs_world2pix c ra dec = (Fin px, Fin py)"
  shows "\<exists>x y. pixel_of c ra dec = Inr (x, y)
           \<and> \<bar>real_of_int x\<bar> \<le> \<bar>px\<bar> \<and> \<bar>px - real_of_int x\<bar> < 1
           \<and> \<bar>real_of_int y\<bar> \<le> \<bar>py\<bar> \<and> \<bar>py - real_of_int y\<bar> < 1"
proof -
  have t: "\<bar>real_of_int (if r < 0 then - \<lfloor>- r\<rfloor> else \<lfloor>r\<rfloor>)\<bar> \<le> \<bar>r\<bar>
           \<and> \<bar>r - real_of_int (if r < 0 then - \<lfloor>- r\<rfloor> else \<lfloor>r\<rfloor>)\<bar> < 1" for r :: real
    by (cases "r < 0") (simp_all, linarith+)
  show ?thesis using assms t[of px] t[of py] by (simp add: pixel_of_def)
qed

text \<open>The coordinate 3.7 gives pixel 3 and the coordinate -0.4 gives pixel 0.\<close>

theorem pixel_truncated_toward_zero_witness:
  "wcs_world2pix ex_cube (37 / 10) (- 4 / 10) = (Fin (37 / 10), Fin (- 4 / 10))
   \<and> (\<exists>x y. pixel_of ex_cube (37 / 10) (- 4 / 10) = Inr (x, y) \<and> x = 3 \<and> y = 0)"
proof -
  have w: "wcs_world2pix ex_cube (37 / 10) (- 4 / 10) = (Fin (37 / 10), Fin (- 4 / 10))"
    by (simp add: ex_cube_def)
  from pixel_truncated_toward_zero[OF w] obtain x y where
    p: "pixel_of ex_cube (37 / 10) (- 4 / 10) = Inr (x, y)"
    and bx: "\<bar>real_of_int x\<bar> \<le> \<bar>37 / 10\<bar>" "\<bar>37 / 10 - real_of_int x\<bar> < 1"
    and by': "\<bar>real_of_int y\<bar> \<le> \<bar>- 4 / 10 :: real\<bar>" "\<bar>- 4 / 10 - real_of_int y\<bar> < 1"
    by (elim exE conjE)
  have "x = 3" using bx by linarith
  moreover have "y = 0" using by' by linarith
  ultimately show ?thesis using w p by blast
qed

text \<open>
  Claim C1, evaluated at the method string \<^verbatim>\<open>tid\<close>, which is neither \<^verbatim>\<open>fits\<close> nor
  \<^verbatim>\<open>wave\<close>: the call returns status 0, writes no file, and updates the parset, which
  then names an h5parm file that does not exist.
\<close>

theorem unknown_method_reports_success:
  "fst (run ex_obs ''tid'' ''new.h5'' None ex_fs) = Inr 0
   \<and> snd (snd (run ex_obs ''tid'' ''new.h5'' None ex_fs)) = ex_fs
   \<and> ex_fs ''new.h5'' = None
   \<and> parset_parameters ex_obs ''predict.applycal.parmdb'' = None
   \<and> parset_parameters (fst (snd (run ex_obs ''tid'' ''new.h5'' None ex_fs)))
        ''predict.applycal.parmdb'' = Some (PStr ''new.h5'')
   \<and> parset_parameters (fst (snd (run ex_obs ''tid'' ''new.h5'' None ex_fs)))
        ''predict.applycal.steps'' = Some (PList [''beam'', ''tec''])"
  by (simp add: run_def update_parset_def ex_obs_def ex_fs_def)

text \<open>
  Claim C2, evaluated at a direction whose pixel is \<open>(3, 0)\<close> in a cube that is 3 pixels
  wide: the pixel is outside the image, the test of line 97 does not flag it, and the read
  of line 104 raises IndexError.
\<close>

theorem edge_pixel_raises:
  "pixel_of ex_cube 3 0 = Inr (3, 0)
   \<and> shape (data ex_cube) = [2, 1, 2, 2, 3]
   \<and> flagged 3 2 3 0 = False
   \<and> run edge_obs ''fits'' ''out.h5'' (Some ''tec.fits'') ex_fs = (Inl IndexError, edge_obs, ex_fs)"
proof -
  have s: "sample_cube edge_obs ex_cube = Inl IndexError"
    by (simp add: sample_cube_def edge_obs_def ex_obs_def ex_cube_def enumerate_zip_def upt_small Let_def
      sample_direction_def pixel_of_def flagged_def np_zeros_def np_ones_def
      np_full_def np_index_def copy_pixel_def copy_cell_def np_get_def)
  have f: "fits_open ex_fs (Some ''tec.fits'') = Inr ex_cube"
    by (simp add: fits_open_def ex_fs_def)
  have r: "run edge_obs ''fits'' ''out.h5'' (Some ''tec.fits'') ex_fs = (Inl IndexError, edge_obs, ex_fs)"
    by (simp add: run_def run_fits_def f s)
  show ?thesis using r by (simp add: pixel_of_def ex_cube_def flagged_def)
qed

section \<open>The table that a successful call writes\<close>

lemma run_fits_table:
  assumes "run obs ''fits'' h5 (Some name) fs = (Inr 0, obs', fs')"
    and "fs name = Some (Fits c)" and "shape (data c) = [nt, nf, ns, ny, nx]"
  obtains st where "tec_table fs' h5 = Some st"
    and "for_each (enumerate_zip (patch_ras obs) (patch_decs obs))
           (sample_direction c nt nf ns ny nx)
           (np_zeros [nt, ns, length (patch_names obs), nf],
            np_ones [nt, ns, length (patch_names obs), nf]) = Inr (vals st, weights st)"
proof -
  from assms(1) obtain name' c' sol where n: "Some name = Some name'" and c: "fs name' = Some (Fits c')"
    and s: "sample_cube obs c' = Inr (Continue sol)"
    and w: "fs' = fs(h5 \<mapsto> H5parm [tec_solset obs h5 name' sol])"
    by (rule run_fits_ok)
  have cc: "c' = c" using n c assms(2) by simp
  from s[unfolded cc] obtain nt' nf' ns' ny' nx' where
    shp: "shape (data c) = [nt', nf', ns', ny', nx']"
    and l: "for_each (enumerate_zip (patch_ras obs) (patch_decs obs))
           (sample_direction c nt' nf' ns' ny' nx')
           (np_zeros [nt', ns', length (patch_names obs), nf'],
            np_ones [nt', ns', length (patch_names obs), nf']) = Inr (sol_vals sol, sol_weights sol)"
    by (rule sample_cube_Continue)
  have d: "nt' = nt" "nf' = nf" "ns' = ns" "ny' = ny" "nx' = nx" using shp assms(3) by simp_all
  show ?thesis
    by (rule that[of "\<lparr>soltype = ''tec'', soltabName = ''tec000'',
           axesNames = [''time'', ''ant'', ''dir'', ''freq''],
           axis_time = sol_times sol, axis_ant = sol_ants sol,
           axis_dir = patch_names obs, axis_freq = sol_freqs sol,
           vals = sol_vals sol, weights = sol_weights sol,
           history = [create_entry h5 name']\<rparr>"])
       (simp_all add: w tec_table_written l[unfolded d])
qed

lemma ex_cube_file: "ex_fs ''tec.fits'' = Some (Fits ex_cube)"
  by (simp add: ex_fs_def)

lemma ex_cube_shape: "shape (data ex_cube) = [2, 1, 2, 2, 3]"
  by (simp add: ex_cube_def)

lemma write_h5parm_ok:
  assumes "fs h5 \<noteq> Some Directory"
  shows "write_h5parm obs h5 name sol fs = Inr (fs(h5 \<mapsto> H5parm [tec_solset obs h5 name sol]))"
proof (cases "fs h5")
  case None
  then show ?thesis
    by (simp add: write_h5parm_def os_path_exists_def h5parm_open_def)
next
  case (Some a)
  then have "os_remove fs h5 = Inr (fs(h5 := None))"
    using assms by (cases a) (simp_all add: os_remove_def)
  then show ?thesis using Some
    by (simp add: write_h5parm_def os_path_exists_def h5parm_open_def)
qed

lemma run_fits_name_nonempty:
  assumes "run obs ''fits'' h5 (Some name) fs = (Inr 0, obs', fs')"
  shows "name \<noteq> []"
proof
  assume "name = []"
  then have "run_fits obs h5 (Some name) fs = Inl ValueError"
    by (simp add: run_fits_def fits_open_def)
  then show False using assms by (simp add: run_def)
qed

section \<open>The claims about the table\<close>

lemma ex_first_direction_value:
  "\<exists>st. tec_table (snd (snd ex_result)) ''out.h5'' = Some st
        \<and> cell (vals st) [1, 1, 0, 0] = Fin 1101"
proof -
  from ex_run ex_cube_file ex_cube_shape obtain st where
    st: "tec_table (snd (snd ex_result)) ''out.h5'' = Some st"
    and l: "for_each (enumerate_zip (patch_ras ex_obs) (patch_decs ex_obs))
           (sample_direction ex_cube 2 1 2 2 3)
           (np_zeros [2, 2, length (patch_names ex_obs), 1],
            np_ones [2, 2, length (patch_names ex_obs), 1]) = Inr (vals st, weights st)"
    by (rule run_fits_table)
  note e = sample_directions_effect[OF ex_cube_shape l]
  have m: "(0, 17 / 10, 2 / 10) \<in> set (enumerate_zip (patch_ras ex_obs) (patch_decs ex_obs))"
    by (simp add: enumerate_zip_set ex_obs_def)
  have p: "pixel_of ex_cube (17 / 10) (2 / 10) = Inr (1, 0)"
    by (simp add: pixel_of_def ex_cube_def)
  have n: "\<not> flagged 3 2 1 0" by (simp add: flagged_def)
  from e(5)[OF m] p n
  have "\<forall>t<2. \<forall>f<1. \<forall>s<2. cell (vals st) [t, s, 0, f] = cell (data ex_cube) [t, f, s, nat 0, nat 1]"
    by auto
  then have "cell (vals st) [1, 1, 0, 0] = cell (data ex_cube) [1, 0, 1, nat 0, nat 1]"
    by simp
  then have "cell (vals st) [1, 1, 0, 0] = Fin 1101" by (simp add: ex_cube_def)
  then show ?thesis using st by blast
qed

text \<open>
  Claim C8, as stated, fails: the pixel that is copied is not the rounded one. The first
  direction of the small observation has the fractional pixel \<open>(1.7, 0.2)\<close>; the nearest
  pixel is \<open>(2, 0)\<close>, inside the image, where the cube holds 1102 at time 1, frequency 0,
  station 1; the table written holds 1101, the value of pixel \<open>(1, 0)\<close>.
\<close>

theorem rounded_pixel_not_copied_counterexample:
  "wcs_world2pix ex_cube (patch_ras ex_obs ! 0) (patch_decs ex_obs ! 0) = (Fin (17 / 10), Fin (2 / 10))
   \<and> spec_nearest_pixel (17 / 10) = 2 \<and> spec_nearest_pixel (2 / 10) = 0
   \<and> cell (data ex_cube) [1, 0, 1, 0, 2] = Fin 1102
   \<and> (\<exists>st. tec_table (snd (snd ex_result)) ''out.h5'' = Some st
          \<and> cell (vals st) [1, 1, 0, 0] = Fin 1101)"
proof -
  have "wcs_world2pix ex_cube (patch_ras ex_obs ! 0) (patch_decs ex_obs ! 0) = (Fin (17 / 10), Fin (2 / 10))"
    by (simp add: ex_cube_def ex_obs_def)
  moreover have "spec_nearest_pixel (17 / 10) = 2" "spec_nearest_pixel (2 / 10) = 0"
    by (simp_all add: spec_nearest_pixel_def round_def)
  moreover have "cell (data ex_cube) [1, 0, 1, 0, 2] = Fin 1102"
    by (simp add: ex_cube_def)
  ultimately show ?thesis using ex_first_direction_value by simp
qed

text \<open>
  Claim C8, amended. After a call with method fits that returns status 0, for every
  direction \<open>d\<close> of the sky model whose integer pixel \<open>(x, y)\<close>, the fractional pixel
  coordinate truncated toward zero, lies inside the image, \<open>0 \<le> x < nx\<close> and
  \<open>0 \<le> y < ny\<close>, and for every time \<open>t\<close>, frequency \<open>f\<close> and station \<open>s\<close> of the cube,
  the table written has at \<open>(t, s, d, f)\<close> the value of the cube at \<open>(t, f, s, y, x)\<close>, with
  weight 1.
\<close>

theorem in_bounds_direction_copied:
  assumes run: "run obs ''fits'' h5 (Some name) fs = (Inr 0, obs', fs')"
    and cube: "fs name = Some (Fits c)" and shp: "shape (data c) = [nt, nf, ns, ny, nx]"
    and d: "d < length (patch_ras obs)" "d < length (patch_decs obs)"
    and px: "pixel_of c (patch_ras obs ! d) (patch_decs obs ! d) = Inr (x, y)"
    and inb: "0 \<le> x" "x < int nx" "0 \<le> y" "y < int ny"
    and idx: "t < nt" "f < nf" "s < ns"
  shows "\<exists>st. tec_table fs' h5 = Some st
          \<and> cell (vals st) [t, s, d, f] = cell (data c) [t, f, s, nat y, nat x]
          \<and> cell (weights st) [t, s, d, f] = Fin 1"
proof -
  from run cube shp obtain st where st: "tec_table fs' h5 = Some st"
    and l: "for_each (enumerate_zip (patch_ras obs) (patch_decs obs))
           (sample_direction c nt nf ns ny nx)
           (np_zeros [nt, ns, length (patch_names obs), nf],
            np_ones [nt, ns, length (patch_names obs), nf]) = Inr (vals st, weights st)"
    by (rule run_fits_table)
  note e = sample_directions_effect[OF shp l]
  have nf': "\<not> flagged nx ny x y" using inb by (simp add: flagged_def)
  have m: "(d, patch_ras obs ! d, patch_decs obs ! d) \<in> set (enumerate_zip (patch_ras obs) (patch_decs obs))"
    using d by (simp add: enumerate_zip_set)
  from e(5)[OF m] px nf' idx
  have v: "cell (vals st) [t, s, d, f] = cell (data c) [t, f, s, nat y, nat x]" by auto
  have "cell (weights st) [t, s, d, f] \<noteq> Fin 0"
  proof
    assume z: "cell (weights st) [t, s, d, f] = Fin 0"
    from e(4)[OF z] obtain d' ra dec x' y' where
      m': "(d', ra, dec) \<in> set (enumerate_zip (patch_ras obs) (patch_decs obs))"
      and dd: "[t, s, d, f] ! 2 = d'" and p': "pixel_of c ra dec = Inr (x', y')"
      and fl: "flagged nx ny x' y'" by blast
    have "d' = d" using dd by simp
    then have "ra = patch_ras obs ! d \<and> dec = patch_decs obs ! d"
      using m' by (simp add: enumerate_zip_set)
    then have "x' = x \<and> y' = y" using p' px by simp
    then show False using fl nf' by simp
  qed
  then have "cell (weights st) [t, s, d, f] = Fin 1" using e(3)[of "[t, s, d, f]"] by simp
  then show ?thesis using st v by blast
qed

text \<open>
  The first direction of the small observation has pixel \<open>(1, 0)\<close>; the cube holds 1101 at
  time 1, frequency 0, station 1 of that pixel.
\<close>

theorem in_bounds_direction_copied_witness:
  "pixel_of ex_cube (patch_ras ex_obs ! 0) (patch_decs ex_obs ! 0) = Inr (1, 0)
   \<and> (\<exists>st. tec_table (snd (snd ex_result)) ''out.h5'' = Some st
          \<and> cell (vals st) [1, 1, 0, 0] = Fin 1101
          \<and> cell (weights st) [1, 1, 0, 0] = Fin 1)"
proof -
  have d: "0 < length (patch_ras ex_obs)" "0 < length (patch_decs ex_obs)"
    by (simp_all add: ex_obs_def)
  have p: "pixel_of ex_cube (patch_ras ex_obs ! 0) (patch_decs ex_obs ! 0) = Inr (1, 0)"
    by (simp add: ex_obs_def ex_cube_def pixel_of_def)
  have v: "cell (data ex_cube) [1, 0, 1, nat 0, nat 1] = Fin 1101"
    by (simp add: ex_cube_def)
  from in_bounds_direction_copied[OF ex_run ex_cube_file ex_cube_shape d p, of 1 0 1] v
  show ?thesis using p by simp
qed

text \<open>
  Claim C9. After a call with method fits that returns status 0, the file at the target path
  holds one solution set with one table, \<^verbatim>\<open>tec000\<close>, the antenna and source tables of this
  observation and the one history entry of this call, and nothing else; no other path has
  changed. What the path held before does not matter: the same call on a disk where the
  path holds any other file, or none, ends in the same observation and the same disk.
\<close>

theorem overwrite_leaves_only_new_table:
  assumes run: "run obs ''fits'' h5 (Some name) fs = (Inr 0, obs', fs')"
  shows "(\<exists>ss st. fs' h5 = Some (H5parm [ss]) \<and> solsetName ss = ''sol000''
            \<and> soltabs ss = [st] \<and> soltype st = ''tec'' \<and> soltabName st = ''tec000''
            \<and> history st = [create_entry h5 name]
            \<and> antenna ss = zip (stations obs) (stationpos obs)
            \<and> source ss = zip (patch_names obs)
                 (map (\<lambda>(ra, dec). [ra, dec]) (zip (patch_ras obs) (patch_decs obs))))
       \<and> (\<forall>path. path \<noteq> h5 \<longrightarrow> fs' path = fs path)
       \<and> (\<forall>old. h5 \<noteq> name \<and> old \<noteq> Some Directory \<longrightarrow>
             run obs ''fits'' h5 (Some name) (fs(h5 := old)) = (Inr 0, obs', fs'))"
proof -
  from run obtain name' c sol where n: "Some name = Some name'" and c: "fs name' = Some (Fits c)"
    and s: "sample_cube obs c = Inr (Continue sol)"
    and w: "fs' = fs(h5 \<mapsto> H5parm [tec_solset obs h5 name' sol])"
    and o: "obs' = obs\<lparr>parset_parameters := snd (update_parset h5 (parset_parameters obs))\<rparr>"
    by (rule run_fits_ok)
  have nn: "name' = name" using n by simp
  have ne: "name \<noteq> []" using run by (rule run_fits_name_nonempty)
  have a: "\<exists>ss st. fs' h5 = Some (H5parm [ss]) \<and> solsetName ss = ''sol000''
            \<and> soltabs ss = [st] \<and> soltype st = ''tec'' \<and> soltabName st = ''tec000''
            \<and> history st = [create_entry h5 name]
            \<and> antenna ss = zip (stations obs) (stationpos obs)
            \<and> source ss = zip (patch_names obs)
                 (map (\<lambda>(ra, dec). [ra, dec]) (zip (patch_ras obs) (patch_decs obs)))"
    by (simp add: w nn tec_solset_def makeSolset_def Let_def addHistory_def)
  have b: "\<forall>path. path \<noteq> h5 \<longrightarrow> fs' path = fs path" by (simp add: w)
  have u: "fst (update_parset h5 (parset_parameters obs)) = None"
    using run_status0[of obs "''fits''" h5 "Some name" fs] run by simp
  have d: "run obs ''fits'' h5 (Some name) (fs(h5 := old)) = (Inr 0, obs', fs')"
    if h: "h5 \<noteq> name" and od: "old \<noteq> Some Directory" for old
  proof -
    have f: "fits_open (fs(h5 := old)) (Some name) = Inr c"
      using c nn ne h by (simp add: fits_open_def)
    have "(fs(h5 := old)) h5 \<noteq> Some Directory" using od by simp
    from write_h5parm_ok[where fs = "fs(h5 := old)" and ?h5.0 = h5, OF this]
    have wr: "write_h5parm obs h5 name sol (fs(h5 := old)) = Inr fs'"
      by (simp add: w nn)
    have "run_fits obs h5 (Some name) (fs(h5 := old)) = Inr (Continue fs')"
      by (simp add: run_fits_def f s wr)
    then show ?thesis using u o
      by (cases "update_parset h5 (parset_parameters obs)") (simp add: run_def)
  qed
  show ?thesis using a b d by blast
qed

text \<open>
  The disk of the small observation held an h5parm file with an antenna \<^verbatim>\<open>OLD\<close> under the
  output name; after the call it holds the two stations of the observation, and the call
  on a disk without that file ends the same.
\<close>

theorem overwrite_leaves_only_new_table_witness:
  "ex_fs ''out.h5'' = Some (H5parm [\<lparr>solsetName = ''sol000'', soltabs = [],
                                antenna = [(''OLD'', (0, 0, 0))], source = []\<rparr>])
   \<and> (\<exists>ss st. snd (snd ex_result) ''out.h5'' = Some (H5parm [ss])
          \<and> soltabs ss = [st] \<and> soltabName st = ''tec000''
          \<and> history st = [''CREATE (by TEC operation of LoSiTo from obs out.h5 and FITS cube tec.fits)'']
          \<and> antenna ss = [(''CS001'', (0, 0, 0)), (''CS002'', (1, 0, 0))]
          \<and> map fst (source ss) = [''D1'', ''D2'', ''D3''])
   \<and> snd (snd ex_result) ''tec.fits'' = Some (Fits ex_cube)
   \<and> run ex_obs ''fits'' ''out.h5'' (Some ''tec.fits'') (ex_fs(''out.h5'' := None)) = ex_result"
proof -
  note t = overwrite_leaves_only_new_table[OF ex_run]
  note t1 = t[THEN conjunct1]
  note t2 = t[THEN conjunct2, THEN conjunct1, rule_format]
  note t3 = t[THEN conjunct2, THEN conjunct2, rule_format]
  have o: "ex_fs ''out.h5'' = Some (H5parm [\<lparr>solsetName = ''sol000'', soltabs = [],
                                antenna = [(''OLD'', (0, 0, 0))], source = []\<rparr>])"
    by (simp add: ex_fs_def)
  from t1 obtain ss st where
    p: "snd (snd ex_result) ''out.h5'' = Some (H5parm [ss])" "soltabs ss = [st]"
       "soltabName st = ''tec000''" "history st = [create_entry ''out.h5'' ''tec.fits'']"
       "antenna ss = zip (stations ex_obs) (stationpos ex_obs)"
       "source ss = zip (patch_names ex_obs)
                 (map (\<lambda>(ra, dec). [ra, dec]) (zip (patch_ras ex_obs) (patch_decs ex_obs)))"
    by (elim exE conjE)
  have q: "history st = [''CREATE (by TEC operation of LoSiTo from obs out.h5 and FITS cube tec.fits)'']"
          "antenna ss = [(''CS001'', (0, 0, 0)), (''CS002'', (1, 0, 0))]"
          "map fst (source ss) = [''D1'', ''D2'', ''D3'']"
    using p(4,5,6) by (simp_all add: create_entry_def ex_obs_def)
  have "''tec.fits'' \<noteq> ''out.h5''" by simp
  from t2[OF this] have f: "snd (snd ex_result) ''tec.fits'' = Some (Fits ex_cube)"
    using ex_cube_file by simp
  have "''out.h5'' \<noteq> ''tec.fits'' \<and> (None :: fobj option) \<noteq> Some Directory" by simp
  note r0 = t3[OF this]
  have r1: "ex_result = (Inr 0, fst (snd ex_result), snd (snd ex_result))"
    by (rule trans[OF ex_result_def ex_run])
  have r: "run ex_obs ''fits'' ''out.h5'' (Some ''tec.fits'') (ex_fs(''out.h5'' := None)) = ex_result"
    by (rule trans[OF r0 r1[symmetric]])
  have e: "\<exists>ss st. snd (snd ex_result) ''out.h5'' = Some (H5parm [ss])
          \<and> soltabs ss = [st] \<and> soltabName st = ''tec000''
          \<and> history st = [''CREATE (by TEC operation of LoSiTo from obs out.h5 and FITS cube tec.fits)'']
          \<and> antenna ss = [(''CS001'', (0, 0, 0)), (''CS002'', (1, 0, 0))]
          \<and> map fst (source ss) = [''D1'', ''D2'', ''D3'']"
    using p(1,2,3) q by (intro exI conjI)
  show ?thesis using o e f r by (intro conjI)
qed

text \<open>
  Claim C10. After a call with method fits that returns status 0, the value and weight arrays
  of the table written have the same shape, number of times by number of stations by number
  of directions by number of frequencies; every weight is 0 or 1; and the weight at
  \<open>(t, s, d, f)\<close> is 0 exactly when the loop flagged direction \<open>d\<close>, so that a flagged
  direction has weight 0 at every time, station and frequency.
\<close>

theorem weights_mark_flagged_directions:
  assumes run: "run obs ''fits'' h5 (Some name) fs = (Inr 0, obs', fs')"
    and cube: "fs name = Some (Fits c)" and shp: "shape (data c) = [nt, nf, ns, ny, nx]"
  shows "\<exists>st. tec_table fs' h5 = Some st
          \<and> shape (vals st) = [nt, ns, length (patch_names obs), nf]
          \<and> shape (weights st) = shape (vals st)
          \<and> (\<forall>t s d f. t < nt \<and> s < ns \<and> d < length (patch_names obs) \<and> f < nf \<longrightarrow>
                (cell (weights st) [t, s, d, f] = Fin 0 \<or> cell (weights st) [t, s, d, f] = Fin 1)
              \<and> (cell (weights st) [t, s, d, f] = Fin 0 \<longleftrightarrow> direction_flagged obs c d))"
proof -
  from run cube shp obtain st where st: "tec_table fs' h5 = Some st"
    and l: "for_each (enumerate_zip (patch_ras obs) (patch_decs obs))
           (sample_direction c nt nf ns ny nx)
           (np_zeros [nt, ns, length (patch_names obs), nf],
            np_ones [nt, ns, length (patch_names obs), nf]) = Inr (vals st, weights st)"
    by (rule run_fits_table)
  note e = sample_directions_effect[OF shp l]
  have k: "(cell (weights st) [t, s, d, f] = Fin 0 \<or> cell (weights st) [t, s, d, f] = Fin 1)
         \<and> (cell (weights st) [t, s, d, f] = Fin 0 \<longleftrightarrow> direction_flagged obs c d)"
    if r: "t < nt" "s < ns" "d < length (patch_names obs)" "f < nf" for t s d f
  proof -
    have a: "cell (weights st) [t, s, d, f] = Fin 0 \<or> cell (weights st) [t, s, d, f] = Fin 1"
      using e(3)[of "[t, s, d, f]"] by blast
    have b: "direction_flagged obs c d" if z: "cell (weights st) [t, s, d, f] = Fin 0"
    proof -
      from e(4)[OF z] obtain d' ra dec x' y' where
        m': "(d', ra, dec) \<in> set (enumerate_zip (patch_ras obs) (patch_decs obs))"
        and dd: "[t, s, d, f] ! 2 = d'" and p': "pixel_of c ra dec = Inr (x', y')"
        and fl: "flagged nx ny x' y'" by blast
      have "d' = d" using dd by simp
      then have "d < length (patch_ras obs) \<and> d < length (patch_decs obs)
                 \<and> ra = patch_ras obs ! d \<and> dec = patch_decs obs ! d"
        using m' by (simp add: enumerate_zip_set)
      then show ?thesis using p' fl shp by (simp add: direction_flagged_def)
    qed
    have c: "cell (weights st) [t, s, d, f] = Fin 0" if fl: "direction_flagged obs c d"
    proof -
      from fl have dl: "d < length (patch_ras obs)" "d < length (patch_decs obs)"
        by (simp_all add: direction_flagged_def)
      then have m: "(d, patch_ras obs ! d, patch_decs obs ! d) \<in> set (enumerate_zip (patch_ras obs) (patch_decs obs))"
        by (simp add: enumerate_zip_set)
      from e(5)[OF m] obtain x y where p: "pixel_of c (patch_ras obs ! d) (patch_decs obs ! d) = Inr (x, y)"
        and i: "if flagged nx ny x y
              then d < length (patch_names obs) \<and> (\<forall>js. in_shape [nt, ns, length (patch_names obs), nf] js \<and> js ! 2 = d \<longrightarrow>
                     cell (vals st) js = Fin 1 \<and> cell (weights st) js = Fin 0)
              else 0 \<le> x \<and> 0 \<le> y \<and>
                   (\<forall>t<nt. \<forall>f<nf. \<forall>s<ns. cell (vals st) [t, s, d, f] = cell (data c) [t, f, s, nat y, nat x])"
        by blast
      have f': "flagged nx ny x y" using fl p shp by (simp add: direction_flagged_def)
      have "in_shape [nt, ns, length (patch_names obs), nf] [t, s, d, f]"
        using r by (simp add: in_shape4)
      then show ?thesis using i f' by simp
    qed
    show ?thesis using a b c by blast
  qed
  have "shape (vals st) = [nt, ns, length (patch_names obs), nf]"
    and "shape (weights st) = shape (vals st)"
    using e(1,2) by simp_all
  then show ?thesis using st k by blast
qed

text \<open>
  In the small observation the second direction is flagged and the first is not.
\<close>

theorem weights_mark_flagged_directions_witness:
  "direction_flagged ex_obs ex_cube 1 \<and> \<not> direction_flagged ex_obs ex_cube 0
   \<and> (\<exists>st. tec_table (snd (snd ex_result)) ''out.h5'' = Some st
          \<and> shape (vals st) = [2, 2, 3, 1] \<and> shape (weights st) = [2, 2, 3, 1]
          \<and> cell (weights st) [0, 0, 1, 0] = Fin 0
          \<and> cell (weights st) [1, 1, 1, 0] = Fin 0
          \<and> cell (weights st) [0, 0, 0, 0] = Fin 1)"
proof -
  have f1: "direction_flagged ex_obs ex_cube 1"
    by (simp add: direction_flagged_def ex_obs_def ex_cube_def pixel_of_def flagged_def)
  have f0: "\<not> direction_flagged ex_obs ex_cube 0"
    by (simp add: direction_flagged_def ex_obs_def ex_cube_def pixel_of_def flagged_def)
  have n: "length (patch_names ex_obs) = 3" by (simp add: ex_obs_def)
  from weights_mark_flagged_directions[OF ex_run ex_cube_file ex_cube_shape]
  obtain st where t: "tec_table (snd (snd ex_result)) ''out.h5'' = Some st"
    and s: "shape (vals st) = [2, 2, length (patch_names ex_obs), 1]"
       "shape (weights st) = shape (vals st)"
    and a: "\<forall>t s d f. t < 2 \<and> s < 2 \<and> d < length (patch_names ex_obs) \<and> f < 1 \<longrightarrow>
                (cell (weights st) [t, s, d, f] = Fin 0 \<or> cell (weights st) [t, s, d, f] = Fin 1)
              \<and> (cell (weights st) [t, s, d, f] = Fin 0 \<longleftrightarrow> direction_flagged ex_obs ex_cube d)"
    by (elim exE conjE)
  have w: "cell (weights st) [t, s, d, 0] = Fin 0 \<or> cell (weights st) [t, s, d, 0] = Fin 1"
          "cell (weights st) [t, s, d, 0] = Fin 0 \<longleftrightarrow> direction_flagged ex_obs ex_cube d"
    if "t < 2" "s < 2" "d < 3" for t s d
    using a[rule_format, of t s d 0] that n by auto
  have "cell (weights st) [0, 0, 1, 0] = Fin 0" using w(2)[of 0 0 1] f1 by simp
  moreover have "cell (weights st) [1, 1, 1, 0] = Fin 0" using w(2)[of 1 1 1] f1 by simp
  moreover have "cell (weights st) [0, 0, 0, 0] = Fin 1" using w[of 0 0 0] f0 by simp
  ultimately show ?thesis using t s n f1 f0 by simp
qed

end
